theory Spec2Isabelle
  imports Main "HOL-Library.Word"
begin

unbundle bit_operations_syntax

section \<open>CreatiVision controller interface: data model\<close>

text \<open>
  The firmware (src/main.c) works on \<open>uint8_t\<close> values throughout; they are modelled as
  8-bit machine words, so that \<open>+\<close> and \<open>-\<close> wrap around as they do on the AVR.
\<close>

type_synonym uint8_t = "8 word"

subsection \<open>Switch address bytes (layout ruYYXXXX)\<close>

named_theorems switch_defs \<open>unfolding rules of the switch address constants\<close>

definition NO_SWITCH_ACTION :: uint8_t where
  [switch_defs]: "NO_SWITCH_ACTION = 0x80"

definition PIA_PA0 :: uint8_t where [switch_defs]: "PIA_PA0 = 0x00"
definition PIA_PA1 :: uint8_t where [switch_defs]: "PIA_PA1 = 0x10"
definition PIA_PA2 :: uint8_t where [switch_defs]: "PIA_PA2 = 0x28"
definition PIA_PA3 :: uint8_t where [switch_defs]: "PIA_PA3 = 0x38"

definition PIA_PB0 :: uint8_t where [switch_defs]: "PIA_PB0 = 0x00"
definition PIA_PB1 :: uint8_t where [switch_defs]: "PIA_PB1 = 0x01"
definition PIA_PB2 :: uint8_t where [switch_defs]: "PIA_PB2 = 0x02"
definition PIA_PB3 :: uint8_t where [switch_defs]: "PIA_PB3 = 0x03"
definition PIA_PB4 :: uint8_t where [switch_defs]: "PIA_PB4 = 0x04"
definition PIA_PB5 :: uint8_t where [switch_defs]: "PIA_PB5 = 0x05"
definition PIA_PB6 :: uint8_t where [switch_defs]: "PIA_PB6 = 0x06"
definition PIA_PB7 :: uint8_t where [switch_defs]: "PIA_PB7 = 0x07"

text \<open>Left controller keyboard.\<close>

definition Switch_1_a :: uint8_t where [switch_defs]: "Switch_1_a = PIA_PA0 OR PIA_PB3"
definition Switch_1_b :: uint8_t where [switch_defs]: "Switch_1_b = PIA_PA0 OR PIA_PB2"
definition Switch_2_a :: uint8_t where [switch_defs]: "Switch_2_a = PIA_PA1 OR PIA_PB5"
definition Switch_2_b :: uint8_t where [switch_defs]: "Switch_2_b = PIA_PA1 OR PIA_PB4"
definition Switch_3_a :: uint8_t where [switch_defs]: "Switch_3_a = PIA_PA1 OR PIA_PB5"
definition Switch_3_b :: uint8_t where [switch_defs]: "Switch_3_b = PIA_PA1 OR PIA_PB6"
definition Switch_4_a :: uint8_t where [switch_defs]: "Switch_4_a = PIA_PA1 OR PIA_PB5"
definition Switch_4_b :: uint8_t where [switch_defs]: "Switch_4_b = PIA_PA1 OR PIA_PB3"
definition Switch_5_a :: uint8_t where [switch_defs]: "Switch_5_a = PIA_PA1 OR PIA_PB6"
definition Switch_5_b :: uint8_t where [switch_defs]: "Switch_5_b = PIA_PA1 OR PIA_PB3"
definition Switch_6_a :: uint8_t where [switch_defs]: "Switch_6_a = PIA_PA1 OR PIA_PB6"
definition Switch_6_b :: uint8_t where [switch_defs]: "Switch_6_b = PIA_PA1 OR PIA_PB4"
definition Switch_CNTL :: uint8_t where [switch_defs]: "Switch_CNTL = PIA_PA0 OR PIA_PB7"
definition Switch_Q_a :: uint8_t where [switch_defs]: "Switch_Q_a = PIA_PA1 OR PIA_PB4"
definition Switch_Q_b :: uint8_t where [switch_defs]: "Switch_Q_b = PIA_PA1 OR PIA_PB3"
definition Switch_W_a :: uint8_t where [switch_defs]: "Switch_W_a = PIA_PA1 OR PIA_PB3"
definition Switch_W_b :: uint8_t where [switch_defs]: "Switch_W_b = PIA_PA1 OR PIA_PB2"
definition Switch_E_a :: uint8_t where [switch_defs]: "Switch_E_a = PIA_PA1 OR PIA_PB4"
definition Switch_E_b :: uint8_t where [switch_defs]: "Switch_E_b = PIA_PA1 OR PIA_PB2"
definition Switch_R_a :: uint8_t where [switch_defs]: "Switch_R_a = PIA_PA1 OR PIA_PB5"
definition Switch_R_b :: uint8_t where [switch_defs]: "Switch_R_b = PIA_PA1 OR PIA_PB2"
definition Switch_T_a :: uint8_t where [switch_defs]: "Switch_T_a = PIA_PA1 OR PIA_PB6"
definition Switch_T_b :: uint8_t where [switch_defs]: "Switch_T_b = PIA_PA1 OR PIA_PB2"
definition Switch_LEFT_a :: uint8_t where [switch_defs]: "Switch_LEFT_a = PIA_PA1 OR PIA_PB3"
definition Switch_LEFT_b :: uint8_t where [switch_defs]: "Switch_LEFT_b = PIA_PA1 OR PIA_PB0"
definition Switch_A_a :: uint8_t where [switch_defs]: "Switch_A_a = PIA_PA1 OR PIA_PB4"
definition Switch_A_b :: uint8_t where [switch_defs]: "Switch_A_b = PIA_PA1 OR PIA_PB0"
definition Switch_S_a :: uint8_t where [switch_defs]: "Switch_S_a = PIA_PA1 OR PIA_PB5"
definition Switch_S_b :: uint8_t where [switch_defs]: "Switch_S_b = PIA_PA1 OR PIA_PB0"
definition Switch_D_a :: uint8_t where [switch_defs]: "Switch_D_a = PIA_PA1 OR PIA_PB6"
definition Switch_D_b :: uint8_t where [switch_defs]: "Switch_D_b = PIA_PA1 OR PIA_PB0"
definition Switch_F_a :: uint8_t where [switch_defs]: "Switch_F_a = PIA_PA1 OR PIA_PB1"
definition Switch_F_b :: uint8_t where [switch_defs]: "Switch_F_b = PIA_PA1 OR PIA_PB0"
definition Switch_G_a :: uint8_t where [switch_defs]: "Switch_G_a = PIA_PA1 OR PIA_PB2"
definition Switch_G_b :: uint8_t where [switch_defs]: "Switch_G_b = PIA_PA1 OR PIA_PB0"
definition Switch_SHIFT :: uint8_t where [switch_defs]: "Switch_SHIFT = PIA_PA1 OR PIA_PB7"
definition Switch_Z_a :: uint8_t where [switch_defs]: "Switch_Z_a = PIA_PA1 OR PIA_PB3"
definition Switch_Z_b :: uint8_t where [switch_defs]: "Switch_Z_b = PIA_PA1 OR PIA_PB1"
definition Switch_X_a :: uint8_t where [switch_defs]: "Switch_X_a = PIA_PA1 OR PIA_PB4"
definition Switch_X_b :: uint8_t where [switch_defs]: "Switch_X_b = PIA_PA1 OR PIA_PB1"
definition Switch_C_a :: uint8_t where [switch_defs]: "Switch_C_a = PIA_PA1 OR PIA_PB5"
definition Switch_C_b :: uint8_t where [switch_defs]: "Switch_C_b = PIA_PA1 OR PIA_PB1"
definition Switch_V_a :: uint8_t where [switch_defs]: "Switch_V_a = PIA_PA1 OR PIA_PB6"
definition Switch_V_b :: uint8_t where [switch_defs]: "Switch_V_b = PIA_PA1 OR PIA_PB1"
definition Switch_B_a :: uint8_t where [switch_defs]: "Switch_B_a = PIA_PA1 OR PIA_PB2"
definition Switch_B_b :: uint8_t where [switch_defs]: "Switch_B_b = PIA_PA1 OR PIA_PB1"

text \<open>Right controller keyboard.\<close>

definition Switch_7_a :: uint8_t where [switch_defs]: "Switch_7_a = PIA_PA3 OR PIA_PB1"
definition Switch_7_b :: uint8_t where [switch_defs]: "Switch_7_b = PIA_PA3 OR PIA_PB2"
definition Switch_8_a :: uint8_t where [switch_defs]: "Switch_8_a = PIA_PA3 OR PIA_PB6"
definition Switch_8_b :: uint8_t where [switch_defs]: "Switch_8_b = PIA_PA3 OR PIA_PB1"
definition Switch_9_a :: uint8_t where [switch_defs]: "Switch_9_a = PIA_PA3 OR PIA_PB5"
definition Switch_9_b :: uint8_t where [switch_defs]: "Switch_9_b = PIA_PA3 OR PIA_PB1"
definition Switch_0_a :: uint8_t where [switch_defs]: "Switch_0_a = PIA_PA3 OR PIA_PB4"
definition Switch_0_b :: uint8_t where [switch_defs]: "Switch_0_b = PIA_PA3 OR PIA_PB1"
definition Switch_COLON_a :: uint8_t where [switch_defs]: "Switch_COLON_a = PIA_PA3 OR PIA_PB3"
definition Switch_COLON_b :: uint8_t where [switch_defs]: "Switch_COLON_b = PIA_PA3 OR PIA_PB1"
definition Switch_MINUS :: uint8_t where [switch_defs]: "Switch_MINUS = PIA_PA3 OR PIA_PB7"
definition Switch_Y_a :: uint8_t where [switch_defs]: "Switch_Y_a = PIA_PA3 OR PIA_PB0"
definition Switch_Y_b :: uint8_t where [switch_defs]: "Switch_Y_b = PIA_PA3 OR PIA_PB2"
definition Switch_U_a :: uint8_t where [switch_defs]: "Switch_U_a = PIA_PA3 OR PIA_PB0"
definition Switch_U_b :: uint8_t where [switch_defs]: "Switch_U_b = PIA_PA3 OR PIA_PB1"
definition Switch_I_a :: uint8_t where [switch_defs]: "Switch_I_a = PIA_PA3 OR PIA_PB6"
definition Switch_I_b :: uint8_t where [switch_defs]: "Switch_I_b = PIA_PA3 OR PIA_PB0"
definition Switch_O_a :: uint8_t where [switch_defs]: "Switch_O_a = PIA_PA3 OR PIA_PB5"
definition Switch_O_b :: uint8_t where [switch_defs]: "Switch_O_b = PIA_PA3 OR PIA_PB0"
definition Switch_P_a :: uint8_t where [switch_defs]: "Switch_P_a = PIA_PA3 OR PIA_PB4"
definition Switch_P_b :: uint8_t where [switch_defs]: "Switch_P_b = PIA_PA3 OR PIA_PB0"
definition Switch_RETN_a :: uint8_t where [switch_defs]: "Switch_RETN_a = PIA_PA3 OR PIA_PB3"
definition Switch_RETN_b :: uint8_t where [switch_defs]: "Switch_RETN_b = PIA_PA3 OR PIA_PB0"
definition Switch_H_a :: uint8_t where [switch_defs]: "Switch_H_a = PIA_PA3 OR PIA_PB6"
definition Switch_H_b :: uint8_t where [switch_defs]: "Switch_H_b = PIA_PA3 OR PIA_PB2"
definition Switch_J_a :: uint8_t where [switch_defs]: "Switch_J_a = PIA_PA3 OR PIA_PB5"
definition Switch_J_b :: uint8_t where [switch_defs]: "Switch_J_b = PIA_PA3 OR PIA_PB2"
definition Switch_K_a :: uint8_t where [switch_defs]: "Switch_K_a = PIA_PA3 OR PIA_PB4"
definition Switch_K_b :: uint8_t where [switch_defs]: "Switch_K_b = PIA_PA3 OR PIA_PB2"
definition Switch_L_a :: uint8_t where [switch_defs]: "Switch_L_a = PIA_PA3 OR PIA_PB3"
definition Switch_L_b :: uint8_t where [switch_defs]: "Switch_L_b = PIA_PA3 OR PIA_PB2"
definition Switch_SEMICOLON_a :: uint8_t where
  [switch_defs]: "Switch_SEMICOLON_a = PIA_PA3 OR PIA_PB4"
definition Switch_SEMICOLON_b :: uint8_t where
  [switch_defs]: "Switch_SEMICOLON_b = PIA_PA3 OR PIA_PB3"
definition Switch_N_a :: uint8_t where [switch_defs]: "Switch_N_a = PIA_PA3 OR PIA_PB6"
definition Switch_N_b :: uint8_t where [switch_defs]: "Switch_N_b = PIA_PA3 OR PIA_PB4"
definition Switch_M_a :: uint8_t where [switch_defs]: "Switch_M_a = PIA_PA3 OR PIA_PB6"
definition Switch_M_b :: uint8_t where [switch_defs]: "Switch_M_b = PIA_PA3 OR PIA_PB3"
definition Switch_COMMA_a :: uint8_t where [switch_defs]: "Switch_COMMA_a = PIA_PA3 OR PIA_PB5"
definition Switch_COMMA_b :: uint8_t where [switch_defs]: "Switch_COMMA_b = PIA_PA3 OR PIA_PB3"
definition Switch_PERIOD_a :: uint8_t where [switch_defs]: "Switch_PERIOD_a = PIA_PA3 OR PIA_PB6"
definition Switch_PERIOD_b :: uint8_t where [switch_defs]: "Switch_PERIOD_b = PIA_PA3 OR PIA_PB5"
definition Switch_FORWARDSLASH_a :: uint8_t where
  [switch_defs]: "Switch_FORWARDSLASH_a = PIA_PA3 OR PIA_PB5"
definition Switch_FORWARDSLASH_b :: uint8_t where
  [switch_defs]: "Switch_FORWARDSLASH_b = PIA_PA3 OR PIA_PB4"
definition Switch_RIGHT :: uint8_t where [switch_defs]: "Switch_RIGHT = PIA_PA2 OR PIA_PB7"
definition Switch_SPACE_a :: uint8_t where [switch_defs]: "Switch_SPACE_a = PIA_PA2 OR PIA_PB3"
definition Switch_SPACE_b :: uint8_t where [switch_defs]: "Switch_SPACE_b = PIA_PA2 OR PIA_PB2"

text \<open>Left and right controller joysticks.\<close>

definition Switch_JoyL_Up :: uint8_t where [switch_defs]: "Switch_JoyL_Up = PIA_PA0 OR PIA_PB3"
definition Switch_JoyL_Down :: uint8_t where [switch_defs]: "Switch_JoyL_Down = PIA_PA0 OR PIA_PB1"
definition Switch_JoyL_Left :: uint8_t where [switch_defs]: "Switch_JoyL_Left = PIA_PA0 OR PIA_PB5"
definition Switch_JoyL_Right :: uint8_t where
  [switch_defs]: "Switch_JoyL_Right = PIA_PA0 OR PIA_PB2"
definition Switch_JoyL_UpLeft_Extra :: uint8_t where
  [switch_defs]: "Switch_JoyL_UpLeft_Extra = PIA_PA0 OR PIA_PB4"
definition Switch_JoyL_UpRightDownLeft_Extra :: uint8_t where
  [switch_defs]: "Switch_JoyL_UpRightDownLeft_Extra = PIA_PA0 OR PIA_PB6"
definition Switch_JoyL_DownRight_Extra :: uint8_t where
  [switch_defs]: "Switch_JoyL_DownRight_Extra = PIA_PA0 OR PIA_PB0"
definition Switch_JoyL_Button1 :: uint8_t where
  [switch_defs]: "Switch_JoyL_Button1 = PIA_PA0 OR PIA_PB7"
definition Switch_JoyL_Button2 :: uint8_t where
  [switch_defs]: "Switch_JoyL_Button2 = PIA_PA1 OR PIA_PB7"

definition Switch_JoyR_Up :: uint8_t where [switch_defs]: "Switch_JoyR_Up = PIA_PA2 OR PIA_PB3"
definition Switch_JoyR_Down :: uint8_t where [switch_defs]: "Switch_JoyR_Down = PIA_PA2 OR PIA_PB1"
definition Switch_JoyR_Left :: uint8_t where [switch_defs]: "Switch_JoyR_Left = PIA_PA2 OR PIA_PB5"
definition Switch_JoyR_Right :: uint8_t where
  [switch_defs]: "Switch_JoyR_Right = PIA_PA2 OR PIA_PB2"
definition Switch_JoyR_UpLeft_Extra :: uint8_t where
  [switch_defs]: "Switch_JoyR_UpLeft_Extra = PIA_PA2 OR PIA_PB4"
definition Switch_JoyR_UpRightDownLeft_Extra :: uint8_t where
  [switch_defs]: "Switch_JoyR_UpRightDownLeft_Extra = PIA_PA2 OR PIA_PB6"
definition Switch_JoyR_DownRight_Extra :: uint8_t where
  [switch_defs]: "Switch_JoyR_DownRight_Extra = PIA_PA2 OR PIA_PB0"
definition Switch_JoyR_Button1 :: uint8_t where
  [switch_defs]: "Switch_JoyR_Button1 = PIA_PA2 OR PIA_PB7"
definition Switch_JoyR_Button2 :: uint8_t where
  [switch_defs]: "Switch_JoyR_Button2 = PIA_PA3 OR PIA_PB7"

section \<open>The switch matrix driver\<close>

text \<open>
  The \<open>switch\<close> statement of \<open>MT8816_Switch\<close> on the X nibble: \<open>case 6 ... 11\<close> adds 2,
  \<open>case 12 ... 13\<close> subtracts 6, and there is no default branch.
\<close>

definition MT8816_remapX :: "uint8_t \<Rightarrow> uint8_t" where
  "MT8816_remapX switchAddressX =
     (if 6 \<le> switchAddressX \<and> switchAddressX \<le> 11 then switchAddressX + 2
      else if 12 \<le> switchAddressX \<and> switchAddressX \<le> 13 then switchAddressX - 6
      else switchAddressX)"

text \<open>
  \<open>MT8816_Switch\<close> returns the successive contents of the PORTA output register, one per
  statement that writes it. The pin masks \<open>MT_Strobe_bm\<close> and \<open>MT_Data_bm\<close> come from the
  device header, which is not part of the sources, and are parameters here.
\<close>

definition MT8816_Switch :: "uint8_t \<Rightarrow> uint8_t \<Rightarrow> bool \<Rightarrow> uint8_t \<Rightarrow> uint8_t list" where
  "MT8816_Switch MT_Strobe_bm MT_Data_bm switchState switchAddress =
     (let switchAddressX = MT8816_remapX (switchAddress AND 0x0F);
          switchAddressY = switchAddress AND 0x30;
          out1 = switchAddressX OR switchAddressY;
          out2 = (if switchState then out1 OR MT_Data_bm else out1 AND NOT MT_Data_bm);
          out3 = out2 OR MT_Strobe_bm
      in [out1, out2, out3, 0])"

text \<open>
  A call of the driver, as the samplers and the interpreter issue it:
  the switch state and the switch address.
\<close>

type_synonym switch_call = "bool \<times> uint8_t"


section \<open>The scan code buffer\<close>

text \<open>
  The ring buffer shared by the interrupt handler (producer) and the poll loop (consumer):
  an array of \<open>PS2_ScanCodeBuffer_Size\<close> bytes and two \<open>uint8_t\<close> indices.
\<close>

definition PS2_ScanCodeBuffer_Size :: uint8_t where
  "PS2_ScanCodeBuffer_Size = 254"

record ps2_buffer =
  PS2_ScanCodeBuffer :: "uint8_t list"
  PS2_ScanCodeBuffer_Start :: uint8_t
  PS2_ScanCodeBuffer_End :: uint8_t

text \<open>The buffer at reset: the array zeroed (static storage), both indices 0.\<close>

definition PS2_buffer_init :: ps2_buffer where
  "PS2_buffer_init =
     \<lparr>PS2_ScanCodeBuffer = replicate 254 0,
      PS2_ScanCodeBuffer_Start = 0,
      PS2_ScanCodeBuffer_End = 0\<rparr>"

text \<open>
  \<open>get_PS2_ScanCode\<close>: returns 0 when the indices are equal, otherwise the byte at
  \<open>Start\<close>, and advances \<open>Start\<close> with wrap-around at the buffer size.
\<close>

definition get_PS2_ScanCode :: "ps2_buffer \<Rightarrow> uint8_t \<times> ps2_buffer" where
  "get_PS2_ScanCode b =
     (if PS2_ScanCodeBuffer_Start b = PS2_ScanCodeBuffer_End b then (0, b)
      else
        let value = PS2_ScanCodeBuffer b ! unat (PS2_ScanCodeBuffer_Start b);
            start1 = PS2_ScanCodeBuffer_Start b + 1
        in (value,
            b\<lparr>PS2_ScanCodeBuffer_Start :=
                 (if start1 = PS2_ScanCodeBuffer_Size then 0 else start1)\<rparr>))"

text \<open>
  The branch of \<open>PS2_Interrupt\<close> taken for a valid frame: store the byte at \<open>End\<close>,
  advance \<open>End\<close>, and when \<open>End\<close> has caught up with \<open>Start\<close> advance \<open>Start\<close> too
  (the \<open>++Start\<close> is evaluated only when the indices are equal).
\<close>

definition PS2_buffer_add :: "uint8_t \<Rightarrow> ps2_buffer \<Rightarrow> ps2_buffer" where
  "PS2_buffer_add d b =
     (let buf = (PS2_ScanCodeBuffer b)[unat (PS2_ScanCodeBuffer_End b) := d];
          end1 = PS2_ScanCodeBuffer_End b + 1;
          end2 = (if end1 = PS2_ScanCodeBuffer_Size then 0 else end1);
          start1 = PS2_ScanCodeBuffer_Start b + 1;
          start2 = (if end2 = PS2_ScanCodeBuffer_Start b
                    then (if start1 = PS2_ScanCodeBuffer_Size then 0 else start1)
                    else PS2_ScanCodeBuffer_Start b)
      in \<lparr>PS2_ScanCodeBuffer = buf,
          PS2_ScanCodeBuffer_Start = start2,
          PS2_ScanCodeBuffer_End = end2\<rparr>)"

section \<open>The serial bit decoder\<close>

text \<open>The static variables of \<open>PS2_Interrupt\<close>.\<close>

record ps2_decoder =
  startBit :: uint8_t
  data :: uint8_t
  parityCount :: uint8_t
  stopBit :: uint8_t
  bitCount :: uint8_t

definition PS2_decoder_init :: ps2_decoder where
  "PS2_decoder_init =
     \<lparr>startBit = 0, data = 0, parityCount = 0, stopBit = 0, bitCount = 0\<rparr>"

text \<open>
  One run of the interrupt handler, on the falling edge of the clock. The first argument
  is the pin mask \<open>PS2_Data_bm\<close> (a constant of the device header, which is not part of
  the sources), the second the value read from \<open>PORTF.IN\<close>.
\<close>

definition PS2_Interrupt ::
  "uint8_t \<Rightarrow> uint8_t \<Rightarrow> ps2_decoder \<times> ps2_buffer \<Rightarrow> ps2_decoder \<times> ps2_buffer" where
  "PS2_Interrupt PS2_Data_bm portf_in s =
     (let d = fst s; b = snd s;
          thisBit = portf_in AND PS2_Data_bm;
          d1 = d\<lparr>bitCount := bitCount d + 1\<rparr>;
          d2 =
            (if bitCount d1 = 1 then d1\<lparr>startBit := thisBit\<rparr>
             else if 2 \<le> bitCount d1 \<and> bitCount d1 \<le> 9 then
               (if thisBit \<noteq> 0
                then d1\<lparr>data := drop_bit 1 (data d1) OR 0x80,
                        parityCount := parityCount d1 + 1\<rparr>
                else d1\<lparr>data := drop_bit 1 (data d1) AND 0x7F\<rparr>)
             else if bitCount d1 = 10 then
               (if thisBit \<noteq> 0 then d1\<lparr>parityCount := parityCount d1 + 1\<rparr> else d1)
             else if bitCount d1 = 11 then d1\<lparr>stopBit := thisBit\<rparr>
             else d1)
      in if 10 < bitCount d2
         then (d2\<lparr>parityCount := 0, bitCount := 0\<rparr>,
               if parityCount d2 mod 2 \<noteq> 0 \<and> startBit d2 = 0 \<and> stopBit d2 \<noteq> 0
               then PS2_buffer_add (data d2) b else b)
         else (d2, b))"

text \<open>The handler run once per sample of a list of \<open>PORTF.IN\<close> values.\<close>

fun PS2_Interrupts ::
  "uint8_t \<Rightarrow> uint8_t list \<Rightarrow> ps2_decoder \<times> ps2_buffer \<Rightarrow> ps2_decoder \<times> ps2_buffer" where
  "PS2_Interrupts bm [] s = s"
| "PS2_Interrupts bm (p # ps) s = PS2_Interrupts bm ps (PS2_Interrupt bm p s)"


section \<open>The scan code interpreter\<close>

text \<open>The static variables of \<open>process_PS2_ScanCode\<close>: the two sticky flags.\<close>

record ps2_flags =
  key_release :: uint8_t
  extended :: uint8_t

definition ps2_flags_init :: ps2_flags where
  "ps2_flags_init = \<lparr>key_release = 0, extended = 0\<rparr>"

text \<open>
  The \<open>switch (scanCode)\<close> statement of \<open>process_PS2_ScanCode\<close>. It starts with
  \<open>switchValue_a\<close> and \<open>switchValue_b\<close> both \<open>NO_SWITCH_ACTION\<close>; the result is the
  pair of switch values and the flags after the statement. Only the \<open>default\<close> branch and
  the two prefix branches write the flags.
\<close>

definition scanCode_switch :: "uint8_t \<Rightarrow> ps2_flags \<Rightarrow> uint8_t \<times> uint8_t \<times> ps2_flags" where
  "scanCode_switch scanCode f =
     (if scanCode = 0xF0 then
          (NO_SWITCH_ACTION, NO_SWITCH_ACTION, f\<lparr>key_release := 1\<rparr>)
      else if scanCode = 0xE0 \<or> scanCode = 0xE1 then
          (NO_SWITCH_ACTION, NO_SWITCH_ACTION, f\<lparr>extended := 1\<rparr>)
      else if scanCode = 0x16 then (Switch_1_a, Switch_1_b, f)
      else if scanCode = 0x69 then
          (if extended f = 0 then (Switch_1_a, Switch_1_b, f)
           else (NO_SWITCH_ACTION, NO_SWITCH_ACTION, f))
      else if scanCode = 0x1E then (Switch_2_a, Switch_2_b, f)
      else if scanCode = 0x72 then
          (if extended f = 0 then (Switch_2_a, Switch_2_b, f)
           else (NO_SWITCH_ACTION, NO_SWITCH_ACTION, f))
      else if scanCode = 0x26 then (Switch_3_a, Switch_3_b, f)
      else if scanCode = 0x7A then
          (if extended f = 0 then (Switch_3_a, Switch_3_b, f)
           else (NO_SWITCH_ACTION, NO_SWITCH_ACTION, f))
      else if scanCode = 0x25 then (Switch_4_a, Switch_4_b, f)
      else if scanCode = 0x2E then (Switch_5_a, Switch_5_b, f)
      else if scanCode = 0x73 then (Switch_5_a, Switch_5_b, f)
      else if scanCode = 0x36 then (Switch_6_a, Switch_6_b, f)
      else if scanCode = 0x15 then (Switch_Q_a, Switch_Q_b, f)
      else if scanCode = 0x1D then (Switch_W_a, Switch_W_b, f)
      else if scanCode = 0x24 then (Switch_E_a, Switch_E_b, f)
      else if scanCode = 0x2D then (Switch_R_a, Switch_R_b, f)
      else if scanCode = 0x2C then (Switch_T_a, Switch_T_b, f)
      else if scanCode = 0x6B then
          (if extended f \<noteq> 0 then (Switch_LEFT_a, Switch_LEFT_b, f)
           else (Switch_4_a, Switch_4_b, f))
      else if scanCode = 0x66 then (Switch_LEFT_a, Switch_LEFT_b, f)
      else if scanCode = 0x1C then (Switch_A_a, Switch_A_b, f)
      else if scanCode = 0x1B then (Switch_S_a, Switch_S_b, f)
      else if scanCode = 0x23 then (Switch_D_a, Switch_D_b, f)
      else if scanCode = 0x2B then (Switch_F_a, Switch_F_b, f)
      else if scanCode = 0x34 then (Switch_G_a, Switch_G_b, f)
      else if scanCode = 0x12 then
          (if extended f = 0 then (Switch_SHIFT, NO_SWITCH_ACTION, f)
           else (NO_SWITCH_ACTION, NO_SWITCH_ACTION, f))
      else if scanCode = 0x59 then (Switch_SHIFT, NO_SWITCH_ACTION, f)
      else if scanCode = 0x1A then (Switch_Z_a, Switch_Z_b, f)
      else if scanCode = 0x22 then (Switch_X_a, Switch_X_b, f)
      else if scanCode = 0x21 then (Switch_C_a, Switch_C_b, f)
      else if scanCode = 0x2A then (Switch_V_a, Switch_V_b, f)
      else if scanCode = 0x32 then (Switch_B_a, Switch_B_b, f)
      else if scanCode = 0x14 then (Switch_CNTL, NO_SWITCH_ACTION, f)
      else if scanCode = 0x3D then (Switch_7_a, Switch_7_b, f)
      else if scanCode = 0x6C then
          (if extended f = 0 then (Switch_7_a, Switch_7_b, f)
           else (NO_SWITCH_ACTION, NO_SWITCH_ACTION, f))
      else if scanCode = 0x3E then (Switch_8_a, Switch_8_b, f)
      else if scanCode = 0x75 then
          (if extended f = 0 then (Switch_8_a, Switch_8_b, f)
           else (NO_SWITCH_ACTION, NO_SWITCH_ACTION, f))
      else if scanCode = 0x46 then (Switch_9_a, Switch_9_b, f)
      else if scanCode = 0x7D then
          (if extended f = 0 then (Switch_9_a, Switch_9_b, f)
           else (NO_SWITCH_ACTION, NO_SWITCH_ACTION, f))
      else if scanCode = 0x45 then (Switch_0_a, Switch_0_b, f)
      else if scanCode = 0x70 then
          (if extended f = 0 then (Switch_0_a, Switch_0_b, f)
           else (NO_SWITCH_ACTION, NO_SWITCH_ACTION, f))
      else if scanCode = 0x52 then (Switch_COLON_a, Switch_COLON_b, f)
      else if scanCode = 0x4E then (Switch_MINUS, NO_SWITCH_ACTION, f)
      else if scanCode = 0x7B then (Switch_MINUS, NO_SWITCH_ACTION, f)
      else if scanCode = 0x35 then (Switch_Y_a, Switch_Y_b, f)
      else if scanCode = 0x3C then (Switch_U_a, Switch_U_b, f)
      else if scanCode = 0x43 then (Switch_I_a, Switch_I_b, f)
      else if scanCode = 0x44 then (Switch_O_a, Switch_O_b, f)
      else if scanCode = 0x4D then (Switch_P_a, Switch_P_b, f)
      else if scanCode = 0x5A then (Switch_RETN_a, Switch_RETN_b, f)
      else if scanCode = 0x33 then (Switch_H_a, Switch_H_b, f)
      else if scanCode = 0x3B then (Switch_J_a, Switch_J_b, f)
      else if scanCode = 0x42 then (Switch_K_a, Switch_K_b, f)
      else if scanCode = 0x4B then (Switch_L_a, Switch_L_b, f)
      else if scanCode = 0x4C then (Switch_SEMICOLON_a, Switch_SEMICOLON_b, f)
      else if scanCode = 0x31 then (Switch_N_a, Switch_N_b, f)
      else if scanCode = 0x3A then (Switch_M_a, Switch_M_b, f)
      else if scanCode = 0x41 then (Switch_COMMA_a, Switch_COMMA_b, f)
      else if scanCode = 0x49 then (Switch_PERIOD_a, Switch_PERIOD_b, f)
      else if scanCode = 0x71 then
          (if extended f = 0 then (Switch_PERIOD_a, Switch_PERIOD_b, f)
           else (NO_SWITCH_ACTION, NO_SWITCH_ACTION, f))
      else if scanCode = 0x4A then (Switch_FORWARDSLASH_a, Switch_FORWARDSLASH_b, f)
      else if scanCode = 0x74 then
          (if extended f \<noteq> 0 then (Switch_RIGHT, NO_SWITCH_ACTION, f)
           else (Switch_6_a, Switch_6_b, f))
      else if scanCode = 0x29 then (Switch_SPACE_a, Switch_SPACE_b, f)
      else (NO_SWITCH_ACTION, NO_SWITCH_ACTION, f\<lparr>key_release := 0, extended := 0\<rparr>))"

text \<open>
  \<open>process_PS2_ScanCode\<close>: takes one byte from the buffer; a byte of 0 does nothing.
  The result is the list of driver calls in the order issued, the flags and the buffer.
\<close>

definition process_PS2_ScanCode ::
  "ps2_flags \<Rightarrow> ps2_buffer \<Rightarrow> switch_call list \<times> ps2_flags \<times> ps2_buffer" where
  "process_PS2_ScanCode f b =
     (let (scanCode, b') = get_PS2_ScanCode b
      in if scanCode \<noteq> 0 then
           (let (switchValue_a, switchValue_b, f') = scanCode_switch scanCode f
            in if switchValue_a \<noteq> NO_SWITCH_ACTION \<or> switchValue_b \<noteq> NO_SWITCH_ACTION
               then
                 ((if switchValue_a \<noteq> NO_SWITCH_ACTION
                   then (if key_release f' \<noteq> 0
                         then [(False, switchValue_a)] else [(True, switchValue_a)])
                   else []) @
                  (if switchValue_b \<noteq> NO_SWITCH_ACTION
                   then (if key_release f' \<noteq> 0
                         then [(False, switchValue_b)] else [(True, switchValue_b)])
                   else []),
                  f'\<lparr>key_release := 0, extended := 0\<rparr>, b')
               else ([], f', b'))
         else ([], f, b'))"

section \<open>The joystick samplers\<close>

text \<open>
  \<open>readJoystick_Left\<close> and \<open>readJoystick_Right\<close>: the active-low input pins, inverted and
  packed as 0b00BBRLDU. The arguments are the values read from \<open>PORTD.IN\<close> and \<open>PORTC.IN\<close>.
\<close>

definition readJoystick_Left :: "uint8_t \<Rightarrow> uint8_t" where
  "readJoystick_Left portd_in = drop_bit 2 (NOT portd_in AND 0xFC)"

definition readJoystick_Right :: "uint8_t \<Rightarrow> uint8_t \<Rightarrow> uint8_t" where
  "readJoystick_Right portc_in portd_in =
     (NOT portc_in AND 0x0F) OR push_bit 4 (NOT portd_in AND 0x03)"

text \<open>
  The \<open>switch\<close> statement on the direction nibble of \<open>process_Joystick_Left\<close>: the driver
  calls of the matching case, in the order issued.
\<close>

definition joyLeft_direction :: "uint8_t \<Rightarrow> switch_call list" where
  "joyLeft_direction dir =
     (if dir = 0x01 then
           [(False, Switch_JoyL_Down),
            (False, Switch_JoyL_Left),
            (False, Switch_JoyL_Right),
            (False, Switch_JoyL_UpLeft_Extra),
            (False, Switch_JoyL_UpRightDownLeft_Extra),
            (False, Switch_JoyL_DownRight_Extra),
            (True, Switch_JoyL_Up)]
      else if dir = 0x02 then
           [(False, Switch_JoyL_Up),
            (False, Switch_JoyL_Left),
            (False, Switch_JoyL_Right),
            (False, Switch_JoyL_UpLeft_Extra),
            (False, Switch_JoyL_UpRightDownLeft_Extra),
            (False, Switch_JoyL_DownRight_Extra),
            (True, Switch_JoyL_Down)]
      else if dir = 0x04 then
           [(False, Switch_JoyL_Up),
            (False, Switch_JoyL_Down),
            (False, Switch_JoyL_Right),
            (False, Switch_JoyL_UpLeft_Extra),
            (False, Switch_JoyL_UpRightDownLeft_Extra),
            (False, Switch_JoyL_DownRight_Extra),
            (True, Switch_JoyL_Left)]
      else if dir = 0x08 then
           [(False, Switch_JoyL_Up),
            (False, Switch_JoyL_Down),
            (False, Switch_JoyL_Left),
            (False, Switch_JoyL_UpLeft_Extra),
            (False, Switch_JoyL_UpRightDownLeft_Extra),
            (False, Switch_JoyL_DownRight_Extra),
            (True, Switch_JoyL_Right)]
      else if dir = 0x05 then
           [(False, Switch_JoyL_Down),
            (False, Switch_JoyL_Right),
            (False, Switch_JoyL_UpRightDownLeft_Extra),
            (False, Switch_JoyL_DownRight_Extra),
            (True, Switch_JoyL_UpLeft_Extra),
            (True, Switch_JoyL_Up),
            (True, Switch_JoyL_Left)]
      else if dir = 0x09 then
           [(False, Switch_JoyL_Down),
            (False, Switch_JoyL_Left),
            (False, Switch_JoyL_UpLeft_Extra),
            (False, Switch_JoyL_DownRight_Extra),
            (True, Switch_JoyL_UpRightDownLeft_Extra),
            (True, Switch_JoyL_Up),
            (True, Switch_JoyL_Right)]
      else if dir = 0x0A then
           [(False, Switch_JoyL_Up),
            (False, Switch_JoyL_Left),
            (False, Switch_JoyL_UpLeft_Extra),
            (False, Switch_JoyL_UpRightDownLeft_Extra),
            (True, Switch_JoyL_DownRight_Extra),
            (True, Switch_JoyL_Down),
            (True, Switch_JoyL_Right)]
      else if dir = 0x06 then
           [(False, Switch_JoyL_Up),
            (False, Switch_JoyL_Right),
            (False, Switch_JoyL_UpLeft_Extra),
            (False, Switch_JoyL_DownRight_Extra),
            (True, Switch_JoyL_UpRightDownLeft_Extra),
            (True, Switch_JoyL_Down),
            (True, Switch_JoyL_Left)]
      else
           [(False, Switch_JoyL_Up),
            (False, Switch_JoyL_Down),
            (False, Switch_JoyL_Left),
            (False, Switch_JoyL_Right),
            (False, Switch_JoyL_UpLeft_Extra),
            (False, Switch_JoyL_UpRightDownLeft_Extra),
            (False, Switch_JoyL_DownRight_Extra)])"

text \<open>
  \<open>process_Joystick_Left\<close>: the argument \<open>joyLeft_prev\<close> is the function's static variable;
  the result is the list of driver calls in the order issued and the new \<open>joyLeft_prev\<close>.
\<close>

definition process_Joystick_Left :: "uint8_t \<Rightarrow> uint8_t \<Rightarrow> switch_call list \<times> uint8_t" where
  "process_Joystick_Left portd_in joyLeft_prev =
     (let joyLeft = readJoystick_Left portd_in
      in if joyLeft \<noteq> joyLeft_prev then
           ((if joyLeft AND 0x10 \<noteq> 0
             then [(True, Switch_JoyL_Button1)] else [(False, Switch_JoyL_Button1)]) @
            (if joyLeft AND 0x20 \<noteq> 0
             then [(True, Switch_JoyL_Button2)] else [(False, Switch_JoyL_Button2)]) @
            joyLeft_direction (joyLeft AND 0x0F),
            joyLeft)
         else ([], joyLeft_prev))"

text \<open>The same for the right joystick, with its own switch addresses.\<close>

definition joyRight_direction :: "uint8_t \<Rightarrow> switch_call list" where
  "joyRight_direction dir =
     (if dir = 0x01 then
           [(False, Switch_JoyR_Down),
            (False, Switch_JoyR_Left),
            (False, Switch_JoyR_Right),
            (False, Switch_JoyR_UpLeft_Extra),
            (False, Switch_JoyR_UpRightDownLeft_Extra),
            (False, Switch_JoyR_DownRight_Extra),
            (True, Switch_JoyR_Up)]
      else if dir = 0x02 then
           [(False, Switch_JoyR_Up),
            (False, Switch_JoyR_Left),
            (False, Switch_JoyR_Right),
            (False, Switch_JoyR_UpLeft_Extra),
            (False, Switch_JoyR_UpRightDownLeft_Extra),
            (False, Switch_JoyR_DownRight_Extra),
            (True, Switch_JoyR_Down)]
      else if dir = 0x04 then
           [(False, Switch_JoyR_Up),
            (False, Switch_JoyR_Down),
            (False, Switch_JoyR_Right),
            (False, Switch_JoyR_UpLeft_Extra),
            (False, Switch_JoyR_UpRightDownLeft_Extra),
            (False, Switch_JoyR_DownRight_Extra),
            (True, Switch_JoyR_Left)]
      else if dir = 0x08 then
           [(False, Switch_JoyR_Up),
            (False, Switch_JoyR_Down),
            (False, Switch_JoyR_Left),
            (False, Switch_JoyR_UpLeft_Extra),
            (False, Switch_JoyR_UpRightDownLeft_Extra),
            (False, Switch_JoyR_DownRight_Extra),
            (True, Switch_JoyR_Right)]
      else if dir = 0x05 then
           [(False, Switch_JoyR_Down),
            (False, Switch_JoyR_Right),
            (False, Switch_JoyR_UpRightDownLeft_Extra),
            (False, Switch_JoyR_DownRight_Extra),
            (True, Switch_JoyR_UpLeft_Extra),
            (True, Switch_JoyR_Up),
            (True, Switch_JoyR_Left)]
      else if dir = 0x09 then
           [(False, Switch_JoyR_Down),
            (False, Switch_JoyR_Left),
            (False, Switch_JoyR_UpLeft_Extra),
            (False, Switch_JoyR_DownRight_Extra),
            (True, Switch_JoyR_UpRightDownLeft_Extra),
            (True, Switch_JoyR_Up),
            (True, Switch_JoyR_Right)]
      else if dir = 0x0A then
           [(False, Switch_JoyR_Up),
            (False, Switch_JoyR_Left),
            (False, Switch_JoyR_UpLeft_Extra),
            (False, Switch_JoyR_UpRightDownLeft_Extra),
            (True, Switch_JoyR_DownRight_Extra),
            (True, Switch_JoyR_Down),
            (True, Switch_JoyR_Right)]
      else if dir = 0x06 then
           [(False, Switch_JoyR_Up),
            (False, Switch_JoyR_Right),
            (False, Switch_JoyR_UpLeft_Extra),
            (False, Switch_JoyR_DownRight_Extra),
            (True, Switch_JoyR_UpRightDownLeft_Extra),
            (True, Switch_JoyR_Down),
            (True, Switch_JoyR_Left)]
      else
           [(False, Switch_JoyR_Up),
            (False, Switch_JoyR_Down),
            (False, Switch_JoyR_Left),
            (False, Switch_JoyR_Right),
            (False, Switch_JoyR_UpLeft_Extra),
            (False, Switch_JoyR_UpRightDownLeft_Extra),
            (False, Switch_JoyR_DownRight_Extra)])"

definition process_Joystick_Right ::
  "uint8_t \<Rightarrow> uint8_t \<Rightarrow> uint8_t \<Rightarrow> switch_call list \<times> uint8_t" where
  "process_Joystick_Right portc_in portd_in joyRight_prev =
     (let joyRight = readJoystick_Right portc_in portd_in
      in if joyRight \<noteq> joyRight_prev then
           ((if joyRight AND 0x10 \<noteq> 0
             then [(True, Switch_JoyR_Button1)] else [(False, Switch_JoyR_Button1)]) @
            (if joyRight AND 0x20 \<noteq> 0
             then [(True, Switch_JoyR_Button2)] else [(False, Switch_JoyR_Button2)]) @
            joyRight_direction (joyRight AND 0x0F),
            joyRight)
         else ([], joyRight_prev))"

section \<open>Notions used to state the properties\<close>

subsection \<open>The buffer as a queue\<close>

text \<open>
  The invariant of the ring buffer: the array has its declared size and both indices are
  inside it.
\<close>

definition PS2_buffer_inv :: "ps2_buffer \<Rightarrow> bool" where
  "PS2_buffer_inv b =
     (length (PS2_ScanCodeBuffer b) = 254 \<and>
      unat (PS2_ScanCodeBuffer_Start b) < 254 \<and>
      unat (PS2_ScanCodeBuffer_End b) < 254)"

text \<open>
  The unread bytes of a ring buffer, oldest first: the cells from index \<open>s\<close> up to, not
  including, index \<open>e\<close>, going round the end of the array.
\<close>

definition ring_contents :: "'a list \<Rightarrow> nat \<Rightarrow> nat \<Rightarrow> 'a list" where
  "ring_contents buf s e =
     (if s \<le> e then take (e - s) (drop s buf) else drop s buf @ take e buf)"

definition ring_next :: "nat \<Rightarrow> nat \<Rightarrow> nat" where
  "ring_next n i = (if Suc i = n then 0 else Suc i)"

definition PS2_buffer_contents :: "ps2_buffer \<Rightarrow> uint8_t list" where
  "PS2_buffer_contents b =
     ring_contents (PS2_ScanCodeBuffer b)
       (unat (PS2_ScanCodeBuffer_Start b)) (unat (PS2_ScanCodeBuffer_End b))"

text \<open>Several bytes added one after the other, and several successive reads.\<close>

fun PS2_buffer_adds :: "uint8_t list \<Rightarrow> ps2_buffer \<Rightarrow> ps2_buffer" where
  "PS2_buffer_adds [] b = b"
| "PS2_buffer_adds (x # xs) b = PS2_buffer_adds xs (PS2_buffer_add x b)"

fun get_PS2_ScanCodes :: "nat \<Rightarrow> ps2_buffer \<Rightarrow> uint8_t list \<times> ps2_buffer" where
  "get_PS2_ScanCodes 0 b = ([], b)"
| "get_PS2_ScanCodes (Suc n) b =
     (let (v, b1) = get_PS2_ScanCode b;
          (vs, b2) = get_PS2_ScanCodes n b1
      in (v # vs, b2))"

subsection \<open>Frames on the serial line\<close>

text \<open>The level of the data line in a sample of the port: high when the masked pin is set.\<close>

definition line_bit :: "uint8_t \<Rightarrow> uint8_t \<Rightarrow> bool" where
  "line_bit bm p = (p AND bm \<noteq> 0)"

text \<open>
  An 11-bit frame is the list of its line levels in the order sampled: the start bit, eight
  data bits, the parity bit, the stop bit. \<open>frame_valid\<close> is the acceptance condition of the
  protocol, \<open>frame_byte\<close> the byte carried by the data bits, least significant first, and
  \<open>PS2_frame\<close> the frame a keyboard sends for a byte (odd parity).
\<close>

definition frame_valid :: "bool list \<Rightarrow> bool" where
  "frame_valid bits =
     (\<not> bits ! 0 \<and> bits ! 10 \<and> odd (length (filter id (take 9 (drop 1 bits)))))"

definition frame_byte :: "bool list \<Rightarrow> uint8_t" where
  "frame_byte bits = horner_sum of_bool 2 (take 8 (drop 1 bits))"

definition PS2_frame :: "uint8_t \<Rightarrow> bool list" where
  "PS2_frame w =
     [False] @ map (bit w) [0..<8] @ [even (length (filter (bit w) [0..<8]))] @ [True]"

text \<open>
  A stream of frames, each a list of samples of the port: what the protocol asks of the
  buffer, frame by frame. A valid frame adds its byte, an invalid frame adds nothing.
\<close>

fun PS2_frames_buffer :: "uint8_t \<Rightarrow> uint8_t list list \<Rightarrow> ps2_buffer \<Rightarrow> ps2_buffer" where
  "PS2_frames_buffer bm [] b = b"
| "PS2_frames_buffer bm (ps # pss) b =
     PS2_frames_buffer bm pss
       (if frame_valid (map (line_bit bm) ps)
        then PS2_buffer_add (frame_byte (map (line_bit bm) ps)) b else b)"

subsection \<open>Runs of the interpreter and sequences of driver calls\<close>

text \<open>
  \<open>n\<close> successive calls of \<open>process_PS2_ScanCode\<close>, as the main loop makes them: all the
  driver calls in the order issued, the final flags and the final buffer.
\<close>

fun process_PS2_ScanCodes ::
  "nat \<Rightarrow> ps2_flags \<Rightarrow> ps2_buffer \<Rightarrow> switch_call list \<times> ps2_flags \<times> ps2_buffer" where
  "process_PS2_ScanCodes 0 f b = ([], f, b)"
| "process_PS2_ScanCodes (Suc n) f b =
     (let (c1, f1, b1) = process_PS2_ScanCode f b;
          (c2, f2, b2) = process_PS2_ScanCodes n f1 b1
      in (c1 @ c2, f2, b2))"

text \<open>
  A sequence of driver calls in which no close (\<open>True\<close>) comes before an open (\<open>False\<close>).
\<close>

fun opens_first :: "switch_call list \<Rightarrow> bool" where
  "opens_first [] = True"
| "opens_first (c # cs) = (if fst c then list_all fst cs else opens_first cs)"

text \<open>
  The letter keys, from the comments of the \<open>case\<close> labels: the scan code of each letter
  with the two switch addresses of the CreatiVision key of that letter.
\<close>

definition letter_keys :: "(uint8_t \<times> uint8_t \<times> uint8_t) list" where
  "letter_keys =
     [(0x1C, Switch_A_a, Switch_A_b), (0x32, Switch_B_a, Switch_B_b),
      (0x21, Switch_C_a, Switch_C_b), (0x23, Switch_D_a, Switch_D_b),
      (0x24, Switch_E_a, Switch_E_b), (0x2B, Switch_F_a, Switch_F_b),
      (0x34, Switch_G_a, Switch_G_b), (0x33, Switch_H_a, Switch_H_b),
      (0x43, Switch_I_a, Switch_I_b), (0x3B, Switch_J_a, Switch_J_b),
      (0x42, Switch_K_a, Switch_K_b), (0x4B, Switch_L_a, Switch_L_b),
      (0x3A, Switch_M_a, Switch_M_b), (0x31, Switch_N_a, Switch_N_b),
      (0x44, Switch_O_a, Switch_O_b), (0x4D, Switch_P_a, Switch_P_b),
      (0x15, Switch_Q_a, Switch_Q_b), (0x2D, Switch_R_a, Switch_R_b),
      (0x1B, Switch_S_a, Switch_S_b), (0x2C, Switch_T_a, Switch_T_b),
      (0x3C, Switch_U_a, Switch_U_b), (0x2A, Switch_V_a, Switch_V_b),
      (0x1D, Switch_W_a, Switch_W_b), (0x22, Switch_X_a, Switch_X_b),
      (0x35, Switch_Y_a, Switch_Y_b), (0x1A, Switch_Z_a, Switch_Z_b)]"

text \<open>
  The part of \<open>process_PS2_ScanCode\<close> after the byte has been read, as a function of the
  byte: the driver calls and the flags. \<open>scanCode_actions\<close> does this for a list of bytes
  read one after the other.
\<close>

definition scanCode_action :: "uint8_t \<Rightarrow> ps2_flags \<Rightarrow> switch_call list \<times> ps2_flags" where
  "scanCode_action scanCode f =
     (if scanCode \<noteq> 0 then
        (let (switchValue_a, switchValue_b, f') = scanCode_switch scanCode f
         in if switchValue_a \<noteq> NO_SWITCH_ACTION \<or> switchValue_b \<noteq> NO_SWITCH_ACTION
            then
              ((if switchValue_a \<noteq> NO_SWITCH_ACTION
                then (if key_release f' \<noteq> 0
                      then [(False, switchValue_a)] else [(True, switchValue_a)])
                else []) @
               (if switchValue_b \<noteq> NO_SWITCH_ACTION
                then (if key_release f' \<noteq> 0
                      then [(False, switchValue_b)] else [(True, switchValue_b)])
                else []),
               f'\<lparr>key_release := 0, extended := 0\<rparr>)
            else ([], f'))
      else ([], f))"

fun scanCode_actions :: "uint8_t list \<Rightarrow> ps2_flags \<Rightarrow> switch_call list \<times> ps2_flags" where
  "scanCode_actions [] f = ([], f)"
| "scanCode_actions (c # cs) f =
     (let (c1, f1) = scanCode_action c f;
          (c2, f2) = scanCode_actions cs f1
      in (c1 @ c2, f2))"

section \<open>The switch matrix driver: the X address remap\<close>

lemma word_le_15_cases:
  "(x::uint8_t) \<le> 15 \<longleftrightarrow> x \<in> {0, 1, 2, 3, 4, 5, 6, 7, 8, 9, 10, 11, 12, 13, 14, 15}"
proof
  assume "x \<le> 15"
  then have "unat x \<le> 15" by (simp add: word_le_nat_alt)
  then have "unat x \<in> {0, 1, 2, 3, 4, 5, 6, 7, 8, 9, 10, 11, 12, 13, 14, 15}"
    by simp arith
  then have "of_nat (unat x) \<in>
      (of_nat ` {0, 1, 2, 3, 4, 5, 6, 7, 8, 9, 10, 11, 12, 13, 14, 15} :: uint8_t set)"
    by (rule imageI)
  then show "x \<in> {0, 1, 2, 3, 4, 5, 6, 7, 8, 9, 10, 11, 12, 13, 14, 15}" by simp
next
  assume "x \<in> {0, 1, 2, 3, 4, 5, 6, 7, 8, 9, 10, 11, 12, 13, 14, 15}"
  then show "x \<le> 15" by (auto simp: word_le_nat_alt)
qed

lemma remapX_table:
  "map MT8816_remapX [0, 1, 2, 3, 4, 5, 6, 7, 8, 9, 10, 11, 12, 13, 14, 15] =
     [0, 1, 2, 3, 4, 5, 8, 9, 10, 11, 12, 13, 6, 7, 14, 15]"
  by (simp add: MT8816_remapX_def word_le_nat_alt)

lemma logical_X_range:
  "{x::uint8_t. x \<le> 15} = set [0, 1, 2, 3, 4, 5, 6, 7, 8, 9, 10, 11, 12, 13, 14, 15]"
  by (auto simp: word_le_15_cases)

lemma remapX_inj: "inj_on MT8816_remapX {x. x \<le> 15}"
proof -
  have "distinct (map MT8816_remapX [0, 1, 2, 3, 4, 5, 6, 7, 8, 9, 10, 11, 12, 13, 14, 15])"
    unfolding remapX_table by simp
  then show ?thesis by (simp only: distinct_map logical_X_range)
qed

lemma remapX_image: "MT8816_remapX ` {x. x \<le> 15} = {x. x \<le> 15}"
proof -
  have "MT8816_remapX ` set [0, 1, 2, 3, 4, 5, 6, 7, 8, 9, 10, 11, 12, 13, 14, 15] =
      set [0, 1, 2, 3, 4, 5, 8, 9, 10, 11, 12, 13, 6, 7, 14, 15]"
    unfolding set_map [symmetric] remapX_table ..
  moreover have "set [0, 1, 2, 3, 4, 5, 8, 9, 10, 11, 12, 13, 6, 7, 14, 15] =
      set [0, 1, 2, 3, 4, 5, 6, 7, 8, 9, 10, 11, 12, 13, 14, (15::uint8_t)]"
    by auto
  ultimately show ?thesis by (simp only: logical_X_range)
qed

lemma remapX_le: "x \<le> 15 \<Longrightarrow> MT8816_remapX x \<le> 15"
  using remapX_image by blast

lemma port_X_field:
  "hd (MT8816_Switch sb db st a) AND 0x0F = MT8816_remapX (a AND 0x0F)"
proof -
  have "a AND 0x0F \<le> 15" by (rule word_and_le1)
  then have "MT8816_remapX (a AND 0x0F) \<le> 15" by (rule remapX_le)
  then have "MT8816_remapX (a AND 0x0F) AND 0x0F = MT8816_remapX (a AND 0x0F)"
    by (auto simp: word_le_15_cases)
  moreover have "(a AND 0x30) AND 0x0F = 0"
    by (simp add: and.assoc)
  ultimately show ?thesis
    by (simp add: MT8816_Switch_def Let_def bit.conj_disj_distrib2)
qed

text \<open>
  C3. The remap that \<open>MT8816_Switch\<close> applies to the X nibble before it writes the port is
  defined on every logical X from 0 to 15: it adds 2 to 6..11, subtracts 6 from 12..13 and
  leaves the other values alone, so 6 goes to 8, 11 to 13, 12 to 6, 13 to 7, 0 to 0 and
  15 to 15. It is a permutation of 0..15, and the X field of the first port write of
  \<open>MT8816_Switch\<close> is the remapped X nibble of the switch address.
\<close>

theorem MT8816_remapX_permutation:
  "(\<forall>x \<le> 15.
      MT8816_remapX x =
        (if 6 \<le> x \<and> x \<le> 11 then x + 2 else if 12 \<le> x \<and> x \<le> 13 then x - 6 else x) \<and>
      MT8816_remapX x \<le> 15) \<and>
   MT8816_remapX 6 = 8 \<and> MT8816_remapX 11 = 13 \<and> MT8816_remapX 12 = 6 \<and>
   MT8816_remapX 13 = 7 \<and> MT8816_remapX 0 = 0 \<and> MT8816_remapX 15 = 15 \<and>
   bij_betw MT8816_remapX {x. x \<le> 15} {x. x \<le> 15} \<and>
   (\<forall>sb db st a. hd (MT8816_Switch sb db st a) AND 0x0F = MT8816_remapX (a AND 0x0F))"
proof -
  have "\<forall>x \<le> 15.
      MT8816_remapX x =
        (if 6 \<le> x \<and> x \<le> 11 then x + 2 else if 12 \<le> x \<and> x \<le> 13 then x - 6 else x) \<and>
      MT8816_remapX x \<le> 15"
    using remapX_le by (simp add: MT8816_remapX_def)
  moreover have "MT8816_remapX 6 = 8 \<and> MT8816_remapX 11 = 13 \<and> MT8816_remapX 12 = 6 \<and>
      MT8816_remapX 13 = 7 \<and> MT8816_remapX 0 = 0 \<and> MT8816_remapX 15 = 15"
    using remapX_table by simp
  moreover have "bij_betw MT8816_remapX {x. x \<le> 15} {x. x \<le> 15}"
    unfolding bij_betw_def using remapX_inj remapX_image by simp
  ultimately show ?thesis
    using port_X_field by blast
qed

theorem MT8816_remapX_permutation_witness:
  "(9::uint8_t) \<le> 15 \<and> MT8816_remapX 9 = 11 \<and>
   hd (MT8816_Switch 0x40 0x80 True Switch_K_a) AND 0x0F = 6"
proof -
  have h: "(9::uint8_t) \<le> 15" by (simp add: word_le_nat_alt)
  have "MT8816_remapX 9 =
      (if 6 \<le> (9::uint8_t) \<and> (9::uint8_t) \<le> 11 then 9 + 2
       else if 12 \<le> (9::uint8_t) \<and> (9::uint8_t) \<le> 13 then 9 - 6 else 9)"
    using MT8816_remapX_permutation h by blast
  moreover have "hd (MT8816_Switch 0x40 0x80 True Switch_K_a) AND 0x0F =
      MT8816_remapX (Switch_K_a AND 0x0F)"
    using MT8816_remapX_permutation by blast
  ultimately show ?thesis
    using h by (simp add: word_le_nat_alt switch_defs MT8816_remapX_def)
qed

section \<open>The scan code buffer: queue behaviour\<close>

lemma ring_length:
  "s < length buf \<Longrightarrow> e < length buf \<Longrightarrow>
   length (ring_contents buf s e) = (if s \<le> e then e - s else length buf - s + e)"
  by (auto simp: ring_contents_def)

lemma ring_pop:
  assumes "s < length buf" "e < length buf" "s \<noteq> e"
  shows "ring_contents buf s e = buf ! s # ring_contents buf (ring_next (length buf) s) e"
proof -
  have d: "drop s buf = buf ! s # drop (Suc s) buf"
    using assms(1) by (simp add: Cons_nth_drop_Suc)
  show ?thesis
  proof (cases "s < e")
    case True
    then have "e - s = Suc (e - Suc s)" by simp
    with True assms show ?thesis
      by (simp add: ring_contents_def ring_next_def d)
  next
    case False
    with assms have "e < s" by simp
    with assms show ?thesis
      by (auto simp: ring_contents_def ring_next_def d)
  qed
qed

lemma ring_push:
  assumes "t < length buf" "e < length buf" "ring_next (length buf) e \<noteq> t"
  shows "ring_contents (buf[e := x]) t (ring_next (length buf) e) = ring_contents buf t e @ [x]"
proof -
  have u: "buf[e := x] = take e buf @ x # drop (Suc e) buf"
    using assms(2) by (rule upd_conv_take_nth_drop)
  show ?thesis
  proof (cases "t \<le> e")
    case True
    then have "Suc e - t = Suc (e - t)" by simp
    with True assms show ?thesis
      by (auto simp: ring_contents_def ring_next_def u drop_take min_def)
  next
    case False
    then have "e < t" by simp
    with assms have "Suc e < t" by (auto simp: ring_next_def split: if_splits)
    moreover from this have "t - e = Suc (t - Suc e)" by simp
    ultimately show ?thesis using assms
      by (auto simp: ring_contents_def ring_next_def u min_def)
  qed
qed

lemma ring_next_less: "i < n \<Longrightarrow> ring_next n i < n"
  by (auto simp: ring_next_def)

lemma ring_full_iff:
  assumes "s < n" "e < n" "length buf = n"
  shows "ring_next n e = s \<longleftrightarrow> length (ring_contents buf s e) = n - 1"
  using assms by (auto simp: ring_length ring_next_def)

text \<open>Index arithmetic on bytes.\<close>

lemma unat_index_next:
  "unat (i::uint8_t) < 254 \<Longrightarrow>
   unat (if i + 1 = PS2_ScanCodeBuffer_Size then 0 else i + 1) = ring_next 254 (unat i)"
proof -
  assume a: "unat i < 254"
  then have u: "unat (i + 1) = unat i + 1"
    by (simp add: unat_word_ariths)
  have "(i + 1 = 254) \<longleftrightarrow> (unat (i + 1) = 254)"
    by (simp add: word_unat_eq_iff)
  with u show ?thesis
    by (auto simp: PS2_ScanCodeBuffer_Size_def ring_next_def)
qed

lemma get_empty:
  "PS2_ScanCodeBuffer_Start b = PS2_ScanCodeBuffer_End b \<Longrightarrow> get_PS2_ScanCode b = (0, b)"
  by (simp add: get_PS2_ScanCode_def)

lemma contents_empty_iff:
  "PS2_buffer_inv b \<Longrightarrow>
   PS2_buffer_contents b = [] \<longleftrightarrow> PS2_ScanCodeBuffer_Start b = PS2_ScanCodeBuffer_End b"
proof -
  assume "PS2_buffer_inv b"
  then have "length (PS2_buffer_contents b) = 0 \<longleftrightarrow>
      unat (PS2_ScanCodeBuffer_Start b) = unat (PS2_ScanCodeBuffer_End b)"
    unfolding PS2_buffer_contents_def PS2_buffer_inv_def
    by (auto simp: ring_length)
  then show ?thesis by (simp add: word_unat_eq_iff)
qed

lemma get_nonempty:
  assumes "PS2_buffer_inv b" "PS2_buffer_contents b = x # xs"
  shows "fst (get_PS2_ScanCode b) = x"
    and "PS2_buffer_contents (snd (get_PS2_ScanCode b)) = xs"
    and "PS2_buffer_inv (snd (get_PS2_ScanCode b))"
proof -
  let ?s = "unat (PS2_ScanCodeBuffer_Start b)" and ?e = "unat (PS2_ScanCodeBuffer_End b)"
  from assms have ne: "PS2_ScanCodeBuffer_Start b \<noteq> PS2_ScanCodeBuffer_End b"
    using contents_empty_iff by fastforce
  then have ne': "?s \<noteq> ?e" by (simp add: word_unat_eq_iff)
  from assms(1) have len: "length (PS2_ScanCodeBuffer b) = 254" and s: "?s < 254" and e: "?e < 254"
    by (simp_all add: PS2_buffer_inv_def)
  have "ring_contents (PS2_ScanCodeBuffer b) ?s ?e =
      PS2_ScanCodeBuffer b ! ?s # ring_contents (PS2_ScanCodeBuffer b) (ring_next 254 ?s) ?e"
    using ring_pop [of ?s "PS2_ScanCodeBuffer b" ?e] s e ne' len by simp
  with assms(2) have hd: "PS2_ScanCodeBuffer b ! ?s = x"
    and tl: "ring_contents (PS2_ScanCodeBuffer b) (ring_next 254 ?s) ?e = xs"
    by (simp_all add: PS2_buffer_contents_def)
  show "fst (get_PS2_ScanCode b) = x"
    using ne hd by (simp add: get_PS2_ScanCode_def Let_def)
  show "PS2_buffer_contents (snd (get_PS2_ScanCode b)) = xs"
    using ne tl unat_index_next [OF s]
    by (simp add: get_PS2_ScanCode_def Let_def PS2_buffer_contents_def)
  show "PS2_buffer_inv (snd (get_PS2_ScanCode b))"
    using ne len e unat_index_next [OF s] ring_next_less [OF s]
    by (simp add: get_PS2_ScanCode_def Let_def PS2_buffer_inv_def)
qed

lemma get_inv: "PS2_buffer_inv b \<Longrightarrow> PS2_buffer_inv (snd (get_PS2_ScanCode b))"
proof (cases "PS2_buffer_contents b")
  case Nil
  assume i: "PS2_buffer_inv b"
  with Nil have "PS2_ScanCodeBuffer_Start b = PS2_ScanCodeBuffer_End b"
    using contents_empty_iff by blast
  with i show ?thesis by (simp only: get_empty snd_conv)
next
  case (Cons x xs)
  assume "PS2_buffer_inv b"
  then show ?thesis using Cons by (rule get_nonempty(3))
qed

lemma contents_length_le: "PS2_buffer_inv b \<Longrightarrow> length (PS2_buffer_contents b) \<le> 253"
  unfolding PS2_buffer_contents_def PS2_buffer_inv_def
  by (auto simp: ring_length)

lemma add_inv: "PS2_buffer_inv b \<Longrightarrow> PS2_buffer_inv (PS2_buffer_add x b)"
proof -
  assume i: "PS2_buffer_inv b"
  then have s: "unat (PS2_ScanCodeBuffer_Start b) < 254" and e: "unat (PS2_ScanCodeBuffer_End b) < 254"
    and len: "length (PS2_ScanCodeBuffer b) = 254"
    by (simp_all add: PS2_buffer_inv_def)
  show ?thesis
    using len s unat_index_next [OF s] ring_next_less [OF s] unat_index_next [OF e] ring_next_less [OF e]
    by (simp add: PS2_buffer_add_def Let_def PS2_buffer_inv_def)
qed

lemma add_unfold:
  "PS2_buffer_add x b =
     (let e2 = (if PS2_ScanCodeBuffer_End b + 1 = PS2_ScanCodeBuffer_Size then 0
                else PS2_ScanCodeBuffer_End b + 1);
          s2 = (if PS2_ScanCodeBuffer_Start b + 1 = PS2_ScanCodeBuffer_Size then 0
                else PS2_ScanCodeBuffer_Start b + 1)
      in \<lparr>PS2_ScanCodeBuffer = (PS2_ScanCodeBuffer b)[unat (PS2_ScanCodeBuffer_End b) := x],
          PS2_ScanCodeBuffer_Start = (if e2 = PS2_ScanCodeBuffer_Start b then s2
                                      else PS2_ScanCodeBuffer_Start b),
          PS2_ScanCodeBuffer_End = e2\<rparr>)"
  by (simp add: PS2_buffer_add_def Let_def)

lemma add_contents:
  assumes "PS2_buffer_inv b"
  shows "PS2_buffer_contents (PS2_buffer_add x b) =
     (if length (PS2_buffer_contents b) = 253 then tl (PS2_buffer_contents b)
      else PS2_buffer_contents b) @ [x]"
proof -
  let ?s = "unat (PS2_ScanCodeBuffer_Start b)" and ?e = "unat (PS2_ScanCodeBuffer_End b)"
  let ?buf = "PS2_ScanCodeBuffer b"
  define e2 where "e2 = (if PS2_ScanCodeBuffer_End b + 1 = PS2_ScanCodeBuffer_Size then 0
                else PS2_ScanCodeBuffer_End b + 1)"
  define s2 where "s2 = (if PS2_ScanCodeBuffer_Start b + 1 = PS2_ScanCodeBuffer_Size then 0
                else PS2_ScanCodeBuffer_Start b + 1)"
  from assms have len: "length ?buf = 254" and s: "?s < 254" and e: "?e < 254"
    by (simp_all add: PS2_buffer_inv_def)
  have e2: "unat e2 = ring_next 254 ?e" unfolding e2_def by (rule unat_index_next [OF e])
  have s2: "unat s2 = ring_next 254 ?s" unfolding s2_def by (rule unat_index_next [OF s])
  have add: "PS2_buffer_add x b =
      \<lparr>PS2_ScanCodeBuffer = ?buf[?e := x],
       PS2_ScanCodeBuffer_Start = (if e2 = PS2_ScanCodeBuffer_Start b then s2
                                   else PS2_ScanCodeBuffer_Start b),
       PS2_ScanCodeBuffer_End = e2\<rparr>"
    unfolding e2_def s2_def by (simp only: add_unfold Let_def)
  have "(e2 = PS2_ScanCodeBuffer_Start b) \<longleftrightarrow> (unat e2 = ?s)"
    by (rule word_unat_eq_iff)
  also have "\<dots> \<longleftrightarrow> ring_next 254 ?e = ?s" by (simp only: e2)
  also have "\<dots> \<longleftrightarrow> length (ring_contents ?buf ?s ?e) = 254 - 1"
    by (rule ring_full_iff [OF s e len])
  finally have full: "(e2 = PS2_ScanCodeBuffer_Start b) \<longleftrightarrow> length (PS2_buffer_contents b) = 253"
    by (simp add: PS2_buffer_contents_def)
  show ?thesis
  proof (cases "e2 = PS2_ScanCodeBuffer_Start b")
    case False
    then have "unat e2 \<noteq> ?s" using word_unat_eq_iff by blast
    then have "ring_next (length ?buf) ?e \<noteq> ?s" using e2 len by simp
    then have "ring_contents (?buf[?e := x]) ?s (ring_next (length ?buf) ?e) = ring_contents ?buf ?s ?e @ [x]"
      using s e len by (intro ring_push) simp_all
    with False full show ?thesis
      by (simp add: add PS2_buffer_contents_def e2 len)
  next
    case True
    then have eq: "ring_next 254 ?e = ?s" using e2 by simp
    then have ne: "?s \<noteq> ?e" by (auto simp: ring_next_def split: if_splits)
    have s2': "ring_next 254 ?s < 254" by (rule ring_next_less [OF s])
    have "ring_next 254 ?e \<noteq> ring_next 254 ?s" using eq s by (auto simp: ring_next_def split: if_splits)
    then have "ring_contents (?buf[?e := x]) (ring_next 254 ?s) (ring_next (length ?buf) ?e) =
        ring_contents ?buf (ring_next 254 ?s) ?e @ [x]"
      using s2' e len by (intro ring_push) simp_all
    then have p: "ring_contents (?buf[?e := x]) (unat s2) (unat e2) =
        ring_contents ?buf (ring_next 254 ?s) ?e @ [x]"
      by (simp only: s2 e2 len)
    have "ring_contents ?buf ?s ?e = ?buf ! ?s # ring_contents ?buf (ring_next (length ?buf) ?s) ?e"
      using s e ne len by (intro ring_pop) simp_all
    then have t: "tl (PS2_buffer_contents b) = ring_contents ?buf (ring_next 254 ?s) ?e"
      by (simp add: PS2_buffer_contents_def len)
    from True full p t show ?thesis
      by (simp add: add PS2_buffer_contents_def)
  qed
qed

lemma add_changes: "PS2_buffer_add x b \<noteq> b"
proof
  assume "PS2_buffer_add x b = b"
  then have "PS2_ScanCodeBuffer_End (PS2_buffer_add x b) = PS2_ScanCodeBuffer_End b" by simp
  then show False
    by (simp add: PS2_buffer_add_def Let_def PS2_ScanCodeBuffer_Size_def split: if_splits)
qed

lemma adds_inv: "PS2_buffer_inv b \<Longrightarrow> PS2_buffer_inv (PS2_buffer_adds xs b)"
  by (induction xs arbitrary: b) (simp_all add: add_inv)

lemma add_contents_drop:
  assumes "PS2_buffer_inv b"
  shows "PS2_buffer_contents (PS2_buffer_add x b) =
     drop (length (PS2_buffer_contents b @ [x]) - 253) (PS2_buffer_contents b @ [x])"
proof -
  have "length (PS2_buffer_contents b) \<le> 253" using assms by (rule contents_length_le)
  then show ?thesis
    using add_contents [OF assms, of x]
    by (cases "PS2_buffer_contents b") (auto simp: drop_Cons')
qed

lemma drop_drop_append:
  "drop (length (drop (length xs - k) xs @ ys) - k) (drop (length xs - k) xs @ ys) =
   drop (length (xs @ ys) - k) (xs @ ys)"
  by (cases "k \<le> length xs") (auto simp: add.commute)

lemma adds_contents:
  "PS2_buffer_inv b \<Longrightarrow>
   PS2_buffer_contents (PS2_buffer_adds xs b) =
     drop (length (PS2_buffer_contents b @ xs) - 253) (PS2_buffer_contents b @ xs)"
proof (induction xs arbitrary: b)
  case Nil
  then show ?case using contents_length_le [of b] by simp
next
  case (Cons x xs)
  have "PS2_buffer_contents (PS2_buffer_adds (x # xs) b) =
      drop (length (PS2_buffer_contents (PS2_buffer_add x b) @ xs) - 253)
        (PS2_buffer_contents (PS2_buffer_add x b) @ xs)"
    using Cons.IH [OF add_inv [OF Cons.prems]] by simp
  also have "\<dots> = drop (length ((PS2_buffer_contents b @ [x]) @ xs) - 253)
        ((PS2_buffer_contents b @ [x]) @ xs)"
    unfolding add_contents_drop [OF Cons.prems] by (rule drop_drop_append)
  finally show ?case by simp
qed

lemma gets_contents:
  "PS2_buffer_inv b \<Longrightarrow>
   fst (get_PS2_ScanCodes n b) =
     take n (PS2_buffer_contents b) @ replicate (n - length (PS2_buffer_contents b)) 0 \<and>
   PS2_buffer_contents (snd (get_PS2_ScanCodes n b)) = drop n (PS2_buffer_contents b) \<and>
   PS2_buffer_inv (snd (get_PS2_ScanCodes n b))"
proof (induction n arbitrary: b)
  case 0
  then show ?case by simp
next
  case (Suc n)
  show ?case
  proof (cases "PS2_buffer_contents b")
    case Nil
    with Suc.prems have "get_PS2_ScanCode b = (0, b)"
      using contents_empty_iff get_empty by blast
    with Suc.IH [OF Suc.prems] Nil show ?thesis
      by (simp add: split_beta replicate_append_same)
  next
    case (Cons x xs)
    note g = get_nonempty [OF Suc.prems Cons]
    from Suc.IH [OF g(3)] g(1,2) Cons show ?thesis
      by (simp add: split_beta)
  qed
qed

lemma init_inv: "PS2_buffer_inv PS2_buffer_init"
  by (simp add: PS2_buffer_inv_def PS2_buffer_init_def)

lemma init_contents: "PS2_buffer_contents PS2_buffer_init = []"
  by (simp add: PS2_buffer_contents_def PS2_buffer_init_def ring_contents_def)

lemma interrupt_buffer_cases:
  "snd (PS2_Interrupt bm p (d, b)) = b \<or>
   snd (PS2_Interrupt bm p (d, b)) = PS2_buffer_add (data (fst (PS2_Interrupt bm p (d, b)))) b"
  by (simp add: PS2_Interrupt_def Let_def)

text \<open>
  C10. Every run of the interrupt handler and every read by the consumer keeps both
  indices of the ring buffer below the buffer size 254, so the cell written by the
  handler (at \<open>End\<close>) and the cell read by the consumer (at \<open>Start\<close>) are inside the array.
\<close>

theorem PS2_buffer_indices_in_bounds:
  "PS2_buffer_inv b \<Longrightarrow>
   PS2_buffer_inv (snd (PS2_Interrupt bm p (d, b))) \<and>
   PS2_buffer_inv (snd (get_PS2_ScanCode b)) \<and>
   unat (PS2_ScanCodeBuffer_End b) < length (PS2_ScanCodeBuffer b) \<and>
   unat (PS2_ScanCodeBuffer_Start b) < length (PS2_ScanCodeBuffer b)"
proof -
  assume i: "PS2_buffer_inv b"
  have "PS2_buffer_inv (snd (PS2_Interrupt bm p (d, b)))"
    using interrupt_buffer_cases [of bm p d b] i add_inv [OF i] by auto
  moreover have "PS2_buffer_inv (snd (get_PS2_ScanCode b))"
    using i by (rule get_inv)
  ultimately show ?thesis
    using i by (simp add: PS2_buffer_inv_def)
qed

theorem PS2_buffer_indices_in_bounds_witness:
  "PS2_buffer_inv
     \<lparr>PS2_ScanCodeBuffer = replicate 254 0, PS2_ScanCodeBuffer_Start = 0,
      PS2_ScanCodeBuffer_End = 253\<rparr> \<and>
   snd (PS2_Interrupt 2 2
     (\<lparr>startBit = 0, data = 0x1C, parityCount = 3, stopBit = 0, bitCount = 10\<rparr>,
      \<lparr>PS2_ScanCodeBuffer = replicate 254 0, PS2_ScanCodeBuffer_Start = 0,
       PS2_ScanCodeBuffer_End = 253\<rparr>)) =
     \<lparr>PS2_ScanCodeBuffer = (replicate 254 0)[253 := 0x1C], PS2_ScanCodeBuffer_Start = 1,
      PS2_ScanCodeBuffer_End = 0\<rparr> \<and>
   PS2_buffer_inv
     \<lparr>PS2_ScanCodeBuffer = (replicate 254 0)[253 := 0x1C], PS2_ScanCodeBuffer_Start = 1,
      PS2_ScanCodeBuffer_End = 0\<rparr>"
proof -
  have h: "PS2_buffer_inv
     \<lparr>PS2_ScanCodeBuffer = replicate 254 0, PS2_ScanCodeBuffer_Start = 0,
      PS2_ScanCodeBuffer_End = 253\<rparr>"
    by (simp add: PS2_buffer_inv_def)
  have e: "snd (PS2_Interrupt 2 2
     (\<lparr>startBit = 0, data = 0x1C, parityCount = 3, stopBit = 0, bitCount = 10\<rparr>,
      \<lparr>PS2_ScanCodeBuffer = replicate 254 0, PS2_ScanCodeBuffer_Start = 0,
       PS2_ScanCodeBuffer_End = 253\<rparr>)) =
     \<lparr>PS2_ScanCodeBuffer = (replicate 254 0)[253 := 0x1C], PS2_ScanCodeBuffer_Start = 1,
      PS2_ScanCodeBuffer_End = 0\<rparr>"
    by (simp add: PS2_Interrupt_def PS2_buffer_add_def PS2_ScanCodeBuffer_Size_def Let_def
        word_less_nat_alt word_le_nat_alt)
  from PS2_buffer_indices_in_bounds [OF h, of 2 2
      "\<lparr>startBit = 0, data = 0x1C, parityCount = 3, stopBit = 0, bitCount = 10\<rparr>"]
  show ?thesis using h e by simp
qed

text \<open>
  C2, as amended. The array of 254 cells holds at most 253 unread bytes, because equal
  indices mean an empty buffer. Starting from an empty buffer, adding 254 bytes through
  the handler's add path and then reading 253 times returns bytes 2 to 254 in order: only
  the first byte has been dropped.
\<close>

theorem PS2_buffer_drop_oldest:
  assumes "PS2_buffer_inv b"
    and "PS2_ScanCodeBuffer_Start b = PS2_ScanCodeBuffer_End b"
    and "length xs = 254"
  shows "fst (get_PS2_ScanCodes 253 (PS2_buffer_adds xs b)) = tl xs"
proof -
  have "PS2_buffer_contents b = []"
    using assms(1,2) contents_empty_iff by blast
  then have "PS2_buffer_contents (PS2_buffer_adds xs b) = drop 1 xs"
    using adds_contents [OF assms(1), of xs] assms(3) by simp
  then show ?thesis
    using gets_contents [OF adds_inv [OF assms(1)], of 253 xs] assms(3)
    by (simp add: drop_Suc)
qed

theorem PS2_buffer_drop_oldest_witness:
  "PS2_buffer_inv PS2_buffer_init \<and>
   PS2_ScanCodeBuffer_Start PS2_buffer_init = PS2_ScanCodeBuffer_End PS2_buffer_init \<and>
   length (map of_nat [1..<255] :: uint8_t list) = 254 \<and>
   fst (get_PS2_ScanCodes 253 (PS2_buffer_adds (map of_nat [1..<255]) PS2_buffer_init)) =
     map of_nat [2..<255]"
proof -
  have h1: "PS2_buffer_inv PS2_buffer_init"
    by (simp add: PS2_buffer_inv_def PS2_buffer_init_def)
  have h2: "PS2_ScanCodeBuffer_Start PS2_buffer_init = PS2_ScanCodeBuffer_End PS2_buffer_init"
    by (simp add: PS2_buffer_init_def)
  have h3: "length (map of_nat [1..<255] :: uint8_t list) = 254" by simp
  have "tl (map of_nat [1..<255] :: uint8_t list) = map of_nat [2..<255]"
    by (simp only: map_tl [symmetric] tl_upt Suc_1)
  with PS2_buffer_drop_oldest [OF h1 h2 h3] h1 h2 h3 show ?thesis by (simp only: simp_thms)
qed

text \<open>
  C2 with the capacity taken as 254 does not hold: after 255 bytes are added to the empty
  buffer, 254 reads return bytes 3 to 255 and then 0 (buffer empty), not bytes 2 to 255.
\<close>

theorem PS2_buffer_capacity_counterexample:
  "fst (get_PS2_ScanCodes 254 (PS2_buffer_adds (map of_nat [1..<256]) PS2_buffer_init)) =
     map of_nat [3..<256] @ [0] \<and>
   fst (get_PS2_ScanCodes 254 (PS2_buffer_adds (map of_nat [1..<256]) PS2_buffer_init)) \<noteq>
     map of_nat [2..<256]"
proof -
  let ?xs = "map of_nat [1..<256] :: uint8_t list"
  have c: "PS2_buffer_contents (PS2_buffer_adds ?xs PS2_buffer_init) = drop 2 ?xs"
    using adds_contents [OF init_inv, of ?xs] by (simp add: init_contents)
  have "(1::nat) + 2 = 3" by simp
  then have d: "drop 2 ?xs = map of_nat [3..<256]"
    by (simp only: drop_map drop_upt)
  have l: "length (map of_nat [3..<256] :: uint8_t list) = 253"
    by simp
  have r: "fst (get_PS2_ScanCodes 254 (PS2_buffer_adds ?xs PS2_buffer_init)) =
      map of_nat [3..<256] @ [0]"
    using gets_contents [OF adds_inv [OF init_inv], of 254 ?xs]
    unfolding c d by (simp only: l take_all_iff) simp
  have "[3..<256] = 3 # [4..<256]" by (simp only: upt_conv_Cons) simp
  then have h3: "hd (map of_nat [3..<256] @ [0] :: uint8_t list) = 3"
    by (simp only: list.map append_Cons list.sel) simp
  have "[2..<256] = 2 # [3..<256]" by (simp only: upt_conv_Cons) simp
  then have h2: "hd (map of_nat [2..<256] :: uint8_t list) = 2"
    by (simp only: list.map list.sel) simp
  have "map of_nat [3..<256] @ [0] \<noteq> (map of_nat [2..<256] :: uint8_t list)"
  proof
    assume "map of_nat [3..<256] @ [0] = (map of_nat [2..<256] :: uint8_t list)"
    then have "hd (map of_nat [3..<256] @ [0] :: uint8_t list) = hd (map of_nat [2..<256])"
      by (rule arg_cong)
    then show False unfolding h3 h2 by simp
  qed
  with r show ?thesis by (simp only: simp_thms)
qed

section \<open>The serial bit decoder\<close>

subsection \<open>One frame through the interrupt handler\<close>

lemma mask_7F: "(0x7F::uint8_t) = mask 7"
  by (simp add: mask_eq_exp_minus_1)

lemma drop_bit_1_and_7F: "drop_bit (Suc 0) (x::uint8_t) AND 0x7F = drop_bit (Suc 0) x"
  unfolding mask_7F
  apply (rule bit_eqI)
  apply (auto simp add: bit_simps)
  apply (auto dest!: bit_imp_le_length)
  done

lemma step_start:
  "bitCount d = 0 \<Longrightarrow>
   PS2_Interrupt bm p (d, b) = (d\<lparr>startBit := p AND bm, bitCount := 1\<rparr>, b)"
  by (simp add: PS2_Interrupt_def Let_def word_less_nat_alt word_le_nat_alt)

lemma step_data:
  "bitCount d \<in> {1, 2, 3, 4, 5, 6, 7, 8} \<Longrightarrow>
   PS2_Interrupt bm p (d, b) =
     (d\<lparr>data := drop_bit 1 (data d) OR (if line_bit bm p then 0x80 else 0),
        parityCount := parityCount d + of_bool (line_bit bm p),
        bitCount := bitCount d + 1\<rparr>, b)"
  apply (simp only: insert_iff empty_iff)
  apply (elim disjE FalseE)
  apply (simp_all add: PS2_Interrupt_def Let_def line_bit_def drop_bit_1_and_7F
      word_less_nat_alt word_le_nat_alt)
  done

lemma step_parity:
  "bitCount d = 9 \<Longrightarrow>
   PS2_Interrupt bm p (d, b) =
     (d\<lparr>parityCount := parityCount d + of_bool (line_bit bm p), bitCount := 10\<rparr>, b)"
  by (simp add: PS2_Interrupt_def Let_def line_bit_def word_less_nat_alt word_le_nat_alt)

lemma step_stop:
  "bitCount d = 10 \<Longrightarrow>
   PS2_Interrupt bm p (d, b) =
     (d\<lparr>parityCount := 0, stopBit := p AND bm, bitCount := 0\<rparr>,
      if odd (parityCount d) \<and> startBit d = 0 \<and> line_bit bm p
      then PS2_buffer_add (data d) b else b)"
  by (simp add: PS2_Interrupt_def Let_def line_bit_def word_less_nat_alt word_le_nat_alt
       odd_iff_mod_2_eq_one flip: mod_2_eq_odd)

lemma and_zero_line_bit: "(p AND bm = 0) \<longleftrightarrow> \<not> line_bit bm p"
  by (simp add: line_bit_def)

lemma frame_steps:
  assumes "bitCount d = 0" "parityCount d = 0"
  shows "PS2_Interrupts bm [s0, d0, d1, d2, d3, d4, d5, d6, d7, pb, e] (d, b) =
    (d\<lparr>startBit := s0 AND bm,
       data := horner_sum of_bool 2 (map (line_bit bm) [d0, d1, d2, d3, d4, d5, d6, d7]),
       parityCount := 0, stopBit := e AND bm, bitCount := 0\<rparr>,
     if odd (length (filter (line_bit bm) [d0, d1, d2, d3, d4, d5, d6, d7, pb])) \<and>
        \<not> line_bit bm s0 \<and> line_bit bm e
     then PS2_buffer_add
            (horner_sum of_bool 2 (map (line_bit bm) [d0, d1, d2, d3, d4, d5, d6, d7])) b
     else b)"
  using assms
  by (simp add: step_start step_data step_parity step_stop and_zero_line_bit)

lemma length_11:
  "length ps = 11 \<Longrightarrow>
   \<exists>s0 d0 d1 d2 d3 d4 d5 d6 d7 pb e. ps = [s0, d0, d1, d2, d3, d4, d5, d6, d7, pb, e]"
  by (auto simp: eval_nat_numeral length_Suc_conv)

lemma frame_run:
  assumes "bitCount d = 0" "parityCount d = 0" "length ps = 11"
  shows "snd (PS2_Interrupts bm ps (d, b)) =
      (if frame_valid (map (line_bit bm) ps)
       then PS2_buffer_add (frame_byte (map (line_bit bm) ps)) b else b)"
    and "bitCount (fst (PS2_Interrupts bm ps (d, b))) = 0"
    and "parityCount (fst (PS2_Interrupts bm ps (d, b))) = 0"
proof -
  from length_11 [OF assms(3)] obtain s0 d0 d1 d2 d3 d4 d5 d6 d7 pb e
    where ps: "ps = [s0, d0, d1, d2, d3, d4, d5, d6, d7, pb, e]"
    by (elim exE)
  have v: "frame_valid (map (line_bit bm) ps) \<longleftrightarrow>
      odd (length (filter (line_bit bm) [d0, d1, d2, d3, d4, d5, d6, d7, pb])) \<and>
      \<not> line_bit bm s0 \<and> line_bit bm e"
    unfolding ps frame_valid_def by (simp add: conj_ac)
  have y: "frame_byte (map (line_bit bm) ps) =
      horner_sum of_bool 2 (map (line_bit bm) [d0, d1, d2, d3, d4, d5, d6, d7])"
    unfolding ps frame_byte_def by simp
  note st = frame_steps [OF assms(1,2), of bm s0 d0 d1 d2 d3 d4 d5 d6 d7 pb e b]
  show "snd (PS2_Interrupts bm ps (d, b)) =
      (if frame_valid (map (line_bit bm) ps)
       then PS2_buffer_add (frame_byte (map (line_bit bm) ps)) b else b)"
    unfolding v y unfolding ps st by (simp only: snd_conv)
  show "bitCount (fst (PS2_Interrupts bm ps (d, b))) = 0"
    unfolding ps st by simp
  show "parityCount (fst (PS2_Interrupts bm ps (d, b))) = 0"
    unfolding ps st by simp
qed

lemma odd_parity_bits:
  "odd (length (filter id (xs @ [even (length (filter id xs))])))"
  by simp

lemma PS2_frame_valid: "frame_valid (PS2_frame w)"
proof -
  have t: "take 9 (drop 1 (PS2_frame w)) =
      map (bit w) [0..<8] @ [even (length (filter id (map (bit w) [0..<8])))]"
    by (simp add: PS2_frame_def filter_map comp_def)
  have "odd (length (filter id (take 9 (drop 1 (PS2_frame w)))))"
    unfolding t by (rule odd_parity_bits)
  moreover have "\<not> PS2_frame w ! 0" by (simp add: PS2_frame_def)
  moreover have "PS2_frame w ! 10" by (simp add: PS2_frame_def nth_append)
  ultimately show ?thesis by (simp only: frame_valid_def simp_thms)
qed

lemma PS2_frame_byte: "frame_byte (PS2_frame w) = w"
proof -
  have "take 8 (drop 1 (PS2_frame w)) = map (bit w) [0..<8]"
    by (simp add: PS2_frame_def)
  then have "frame_byte (PS2_frame w) = horner_sum of_bool 2 (map (bit w) [0..<8])"
    by (simp only: frame_byte_def)
  also have "\<dots> = take_bit 8 w" by (rule horner_sum_bit_eq_take_bit)
  also have "\<dots> = w" by (rule take_bit_word_eq_self) simp
  finally show ?thesis .
qed

lemma PS2_frame_length: "length (PS2_frame w) = 11"
  by (simp add: PS2_frame_def)

lemma upt_0_8: "[0..<8] = [0, 1, 2, 3, 4, 5, 6, 7]"
  by code_simp

lemma frame_dequeued:
  assumes "PS2_buffer_inv b"
  shows "0 < length (PS2_buffer_contents (PS2_buffer_add w b)) \<and>
     last (fst (get_PS2_ScanCodes (length (PS2_buffer_contents (PS2_buffer_add w b)))
       (PS2_buffer_add w b))) = w"
proof -
  have c: "PS2_buffer_contents (PS2_buffer_add w b) \<noteq> [] \<and>
      last (PS2_buffer_contents (PS2_buffer_add w b)) = w"
    using add_contents [OF assms, of w] by simp
  have "fst (get_PS2_ScanCodes (length (PS2_buffer_contents (PS2_buffer_add w b)))
       (PS2_buffer_add w b)) = PS2_buffer_contents (PS2_buffer_add w b)"
    using gets_contents [OF add_inv [OF assms], of "length (PS2_buffer_contents (PS2_buffer_add w b))" w]
    by simp
  with c show ?thesis by simp
qed

lemma PS2_Interrupts_append:
  "PS2_Interrupts bm (xs @ ys) s = PS2_Interrupts bm ys (PS2_Interrupts bm xs s)"
  by (induction xs arbitrary: s) simp_all

lemma frames_run:
  assumes "bitCount d = 0" and "parityCount d = 0" and "\<forall>qs \<in> set pss. length qs = 11"
  shows "snd (PS2_Interrupts bm (concat pss) (d, b)) = PS2_frames_buffer bm pss b \<and>
     bitCount (fst (PS2_Interrupts bm (concat pss) (d, b))) = 0 \<and>
     parityCount (fst (PS2_Interrupts bm (concat pss) (d, b))) = 0"
  using assms
proof (induction pss arbitrary: d b)
  case Nil
  then show ?case by simp
next
  case (Cons ps pss)
  from Cons.prems(3) have l: "length ps = 11" and ls: "\<forall>qs \<in> set pss. length qs = 11"
    by simp_all
  define d1 where "d1 = fst (PS2_Interrupts bm ps (d, b))"
  define b1 where "b1 = snd (PS2_Interrupts bm ps (d, b))"
  have s1: "PS2_Interrupts bm ps (d, b) = (d1, b1)"
    by (simp add: d1_def b1_def)
  have a1: "bitCount d1 = 0"
    unfolding d1_def by (rule frame_run(2) [OF Cons.prems(1,2) l])
  have a2: "parityCount d1 = 0"
    unfolding d1_def by (rule frame_run(3) [OF Cons.prems(1,2) l])
  have b1': "b1 = (if frame_valid (map (line_bit bm) ps)
      then PS2_buffer_add (frame_byte (map (line_bit bm) ps)) b else b)"
    unfolding b1_def by (rule frame_run(1) [OF Cons.prems(1,2) l])
  have "PS2_Interrupts bm (concat (ps # pss)) (d, b) = PS2_Interrupts bm (concat pss) (d1, b1)"
    by (simp only: concat.simps PS2_Interrupts_append s1)
  moreover have "PS2_frames_buffer bm (ps # pss) b = PS2_frames_buffer bm pss b1"
    by (simp only: PS2_frames_buffer.simps b1')
  ultimately show ?case
    using Cons.IH [OF a1 a2 ls, of b1] by (simp only:)
qed

text \<open>
  C1. From a decoder state at a frame boundary, the eleven samples of a frame change the
  buffer exactly when the frame is valid: start bit low, stop bit high and an odd number
  of high bits among the eight data bits and the parity bit. A valid frame adds the byte
  formed by the data bits, least significant first. When the samples are the frame a
  keyboard sends for a byte \<open>w\<close>, that byte is added, and it is the byte the consumer gets
  back when it has read the buffer up to it. After the eleventh sample the handler is at a
  frame boundary again, valid frame or not, so the same holds of every frame of a stream:
  the buffer after any number of frames is the one the protocol asks for.
\<close>

theorem PS2_frame_validation:
  assumes "bitCount d = 0" and "parityCount d = 0" and "length ps = 11"
  shows "(snd (PS2_Interrupts bm ps (d, b)) \<noteq> b \<longleftrightarrow> frame_valid (map (line_bit bm) ps)) \<and>
     (frame_valid (map (line_bit bm) ps) \<longrightarrow>
        snd (PS2_Interrupts bm ps (d, b)) =
          PS2_buffer_add (frame_byte (map (line_bit bm) ps)) b) \<and>
     (\<forall>w. map (line_bit bm) ps = PS2_frame w \<and> PS2_buffer_inv b \<longrightarrow>
        snd (PS2_Interrupts bm ps (d, b)) = PS2_buffer_add w b \<and>
        0 < length (PS2_buffer_contents (snd (PS2_Interrupts bm ps (d, b)))) \<and>
        last (fst (get_PS2_ScanCodes
          (length (PS2_buffer_contents (snd (PS2_Interrupts bm ps (d, b)))))
          (snd (PS2_Interrupts bm ps (d, b))))) = w) \<and>
     bitCount (fst (PS2_Interrupts bm ps (d, b))) = 0 \<and>
     parityCount (fst (PS2_Interrupts bm ps (d, b))) = 0 \<and>
     (\<forall>pss. (\<forall>qs \<in> set pss. length qs = 11) \<longrightarrow>
        snd (PS2_Interrupts bm (concat pss) (d, b)) = PS2_frames_buffer bm pss b \<and>
        bitCount (fst (PS2_Interrupts bm (concat pss) (d, b))) = 0 \<and>
        parityCount (fst (PS2_Interrupts bm (concat pss) (d, b))) = 0)"
proof -
  note r = frame_run(1) [OF assms, of bm b]
  have 1: "snd (PS2_Interrupts bm ps (d, b)) \<noteq> b \<longleftrightarrow> frame_valid (map (line_bit bm) ps)"
    unfolding r using add_changes by simp
  have 2: "frame_valid (map (line_bit bm) ps) \<longrightarrow>
        snd (PS2_Interrupts bm ps (d, b)) =
          PS2_buffer_add (frame_byte (map (line_bit bm) ps)) b"
    unfolding r by simp
  have 3: "snd (PS2_Interrupts bm ps (d, b)) = PS2_buffer_add w b \<and>
        0 < length (PS2_buffer_contents (snd (PS2_Interrupts bm ps (d, b)))) \<and>
        last (fst (get_PS2_ScanCodes
          (length (PS2_buffer_contents (snd (PS2_Interrupts bm ps (d, b)))))
          (snd (PS2_Interrupts bm ps (d, b))))) = w"
    if w: "map (line_bit bm) ps = PS2_frame w" and i: "PS2_buffer_inv b" for w
  proof -
    have "snd (PS2_Interrupts bm ps (d, b)) = PS2_buffer_add w b"
      unfolding r w by (simp only: PS2_frame_valid PS2_frame_byte if_True)
    then show ?thesis using frame_dequeued [OF i, of w] by simp
  qed
  have 4: "bitCount (fst (PS2_Interrupts bm ps (d, b))) = 0"
    by (rule frame_run(2) [OF assms])
  have 5: "parityCount (fst (PS2_Interrupts bm ps (d, b))) = 0"
    by (rule frame_run(3) [OF assms])
  have 6: "snd (PS2_Interrupts bm (concat pss) (d, b)) = PS2_frames_buffer bm pss b \<and>
        bitCount (fst (PS2_Interrupts bm (concat pss) (d, b))) = 0 \<and>
        parityCount (fst (PS2_Interrupts bm (concat pss) (d, b))) = 0"
    if "\<forall>qs \<in> set pss. length qs = 11" for pss
    by (rule frames_run [OF assms(1,2) that])
  from 1 2 3 4 5 6 show ?thesis by blast
qed

theorem PS2_frame_validation_witness:
  "bitCount PS2_decoder_init = 0 \<and> parityCount PS2_decoder_init = 0 \<and>
   length [0, 0, 0, 2, 2, 2, 0, 0, 0, 0, 2 :: uint8_t] = 11 \<and>
   map (line_bit 2) [0, 0, 0, 2, 2, 2, 0, 0, 0, 0, 2] = PS2_frame 0x1C \<and>
   PS2_buffer_inv PS2_buffer_init \<and>
   snd (PS2_Interrupts 2 [0, 0, 0, 2, 2, 2, 0, 0, 0, 0, 2]
     (PS2_decoder_init, PS2_buffer_init)) = PS2_buffer_add 0x1C PS2_buffer_init \<and>
   fst (get_PS2_ScanCode (PS2_buffer_add 0x1C PS2_buffer_init)) = 0x1C \<and>
   bitCount (fst (PS2_Interrupts 2 [0, 0, 0, 2, 2, 2, 0, 0, 0, 0, 2]
     (PS2_decoder_init, PS2_buffer_init))) = 0 \<and>
   parityCount (fst (PS2_Interrupts 2 [0, 0, 0, 2, 2, 2, 0, 0, 0, 0, 2]
     (PS2_decoder_init, PS2_buffer_init))) = 0 \<and>
   length [0, 0, 0, 2, 2, 2, 0, 0, 0, 2, 2 :: uint8_t] = 11 \<and>
   length [0, 0, 0, 0, 0, 2, 2, 2, 2, 2, 2 :: uint8_t] = 11 \<and>
   snd (PS2_Interrupts 2
     (concat [[0, 0, 0, 2, 2, 2, 0, 0, 0, 0, 2], [0, 0, 0, 2, 2, 2, 0, 0, 0, 2, 2],
       [0, 0, 0, 0, 0, 2, 2, 2, 2, 2, 2]])
     (PS2_decoder_init, PS2_buffer_init)) =
     PS2_buffer_add 0xF0 (PS2_buffer_add 0x1C PS2_buffer_init)"
proof -
  have h1: "bitCount PS2_decoder_init = 0" and h2: "parityCount PS2_decoder_init = 0"
    by (simp_all add: PS2_decoder_init_def)
  have h3: "length [0, 0, 0, 2, 2, 2, 0, 0, 0, 0, 2 :: uint8_t] = 11" by simp
  have h4: "map (line_bit 2) [0, 0, 0, 2, 2, 2, 0, 0, 0, 0, 2] = PS2_frame 0x1C"
    by (simp add: line_bit_def PS2_frame_def upt_0_8 bit_numeral_simps)
  have h5: "PS2_buffer_inv PS2_buffer_init" by (rule init_inv)
  have h6: "\<forall>qs \<in> set [[0, 0, 0, 2, 2, 2, 0, 0, 0, 0, 2], [0, 0, 0, 2, 2, 2, 0, 0, 0, 2, 2],
       [0, 0, 0, 0, 0, 2, 2, 2, 2, 2, 2 :: uint8_t]]. length qs = 11"
    by simp
  have e: "fst (get_PS2_ScanCode (PS2_buffer_add 0x1C PS2_buffer_init)) = 0x1C"
    by (simp add: get_PS2_ScanCode_def PS2_buffer_add_def PS2_buffer_init_def
        PS2_ScanCodeBuffer_Size_def Let_def)
  have f: "PS2_frames_buffer 2
      [[0, 0, 0, 2, 2, 2, 0, 0, 0, 0, 2], [0, 0, 0, 2, 2, 2, 0, 0, 0, 2, 2],
       [0, 0, 0, 0, 0, 2, 2, 2, 2, 2, 2]] PS2_buffer_init =
      PS2_buffer_add 0xF0 (PS2_buffer_add 0x1C PS2_buffer_init)"
    by (simp add: frame_valid_def frame_byte_def line_bit_def)
  note t = PS2_frame_validation [OF h1 h2 h3, of 2 PS2_buffer_init]
  from t h4 h5
  have a: "snd (PS2_Interrupts 2 [0, 0, 0, 2, 2, 2, 0, 0, 0, 0, 2]
     (PS2_decoder_init, PS2_buffer_init)) = PS2_buffer_add 0x1C PS2_buffer_init"
    by blast
  from t have b: "bitCount (fst (PS2_Interrupts 2 [0, 0, 0, 2, 2, 2, 0, 0, 0, 0, 2]
     (PS2_decoder_init, PS2_buffer_init))) = 0"
    and c: "parityCount (fst (PS2_Interrupts 2 [0, 0, 0, 2, 2, 2, 0, 0, 0, 0, 2]
     (PS2_decoder_init, PS2_buffer_init))) = 0"
    by blast+
  from t h6
  have "snd (PS2_Interrupts 2
     (concat [[0, 0, 0, 2, 2, 2, 0, 0, 0, 0, 2], [0, 0, 0, 2, 2, 2, 0, 0, 0, 2, 2],
       [0, 0, 0, 0, 0, 2, 2, 2, 2, 2, 2]])
     (PS2_decoder_init, PS2_buffer_init)) =
     PS2_frames_buffer 2
      [[0, 0, 0, 2, 2, 2, 0, 0, 0, 0, 2], [0, 0, 0, 2, 2, 2, 0, 0, 0, 2, 2],
       [0, 0, 0, 0, 0, 2, 2, 2, 2, 2, 2]] PS2_buffer_init"
    by blast
  then have g: "snd (PS2_Interrupts 2
     (concat [[0, 0, 0, 2, 2, 2, 0, 0, 0, 0, 2], [0, 0, 0, 2, 2, 2, 0, 0, 0, 2, 2],
       [0, 0, 0, 0, 0, 2, 2, 2, 2, 2, 2]])
     (PS2_decoder_init, PS2_buffer_init)) =
     PS2_buffer_add 0xF0 (PS2_buffer_add 0x1C PS2_buffer_init)"
    by (simp only: f)
  have h7: "length [0, 0, 0, 2, 2, 2, 0, 0, 0, 2, 2 :: uint8_t] = 11"
    and h8: "length [0, 0, 0, 0, 0, 2, 2, 2, 2, 2, 2 :: uint8_t] = 11"
    by simp_all
  from h1 h2 h3 h4 h5 h7 h8 e a b c g show ?thesis by (simp only: simp_thms)
qed

section \<open>The scan code interpreter\<close>

lemma process_action:
  "process_PS2_ScanCode f b =
     (fst (scanCode_action (fst (get_PS2_ScanCode b)) f),
      snd (scanCode_action (fst (get_PS2_ScanCode b)) f),
      snd (get_PS2_ScanCode b))"
  by (simp add: process_PS2_ScanCode_def scanCode_action_def split_beta Let_def)

lemma process_run:
  "PS2_buffer_inv b \<Longrightarrow> PS2_buffer_contents b = cs @ rest \<Longrightarrow>
   fst (process_PS2_ScanCodes (length cs) f b) = fst (scanCode_actions cs f) \<and>
   fst (snd (process_PS2_ScanCodes (length cs) f b)) = snd (scanCode_actions cs f) \<and>
   PS2_buffer_contents (snd (snd (process_PS2_ScanCodes (length cs) f b))) = rest \<and>
   PS2_buffer_inv (snd (snd (process_PS2_ScanCodes (length cs) f b)))"
proof (induction cs arbitrary: f b)
  case Nil
  then show ?case by simp
next
  case (Cons c cs)
  from Cons.prems have c: "PS2_buffer_contents b = c # (cs @ rest)" by simp
  note g = get_nonempty [OF Cons.prems(1) c]
  from Cons.IH [OF g(3) g(2), of "snd (scanCode_action c f)"] g(1)
  show ?case
    by (simp add: process_action split_beta Let_def)
qed

lemma switch_F0:
  "scanCode_switch 0xF0 f = (NO_SWITCH_ACTION, NO_SWITCH_ACTION, f\<lparr>key_release := 1\<rparr>)"
  by (simp add: scanCode_switch_def)

lemma switch_E0:
  "scanCode_switch 0xE0 f = (NO_SWITCH_ACTION, NO_SWITCH_ACTION, f\<lparr>extended := 1\<rparr>)"
  by (simp add: scanCode_switch_def)

lemma switch_E1:
  "scanCode_switch 0xE1 f = (NO_SWITCH_ACTION, NO_SWITCH_ACTION, f\<lparr>extended := 1\<rparr>)"
  by (simp add: scanCode_switch_def)

lemma switch_6B:
  "scanCode_switch 0x6B f =
     (if extended f \<noteq> 0 then (Switch_LEFT_a, Switch_LEFT_b, f)
      else (Switch_4_a, Switch_4_b, f))"
  by (simp add: scanCode_switch_def)

lemma switch_74:
  "scanCode_switch 0x74 f =
     (if extended f \<noteq> 0 then (Switch_RIGHT, NO_SWITCH_ACTION, f)
      else (Switch_6_a, Switch_6_b, f))"
  by (simp add: scanCode_switch_def)

lemma switch_69:
  "scanCode_switch 0x69 f =
     (if extended f = 0 then (Switch_1_a, Switch_1_b, f)
      else (NO_SWITCH_ACTION, NO_SWITCH_ACTION, f))"
  by (simp add: scanCode_switch_def)

lemma switch_letter:
  "(c, a, b) \<in> set letter_keys \<Longrightarrow>
   scanCode_switch c f = (a, b, f) \<and> a \<noteq> NO_SWITCH_ACTION \<and> b \<noteq> NO_SWITCH_ACTION \<and> c \<noteq> 0"
  unfolding letter_keys_def
  apply (simp only: set_simps insert_iff empty_iff prod.inject)
  apply (elim disjE conjE FalseE)
  apply (simp_all add: scanCode_switch_def)
  apply (simp_all add: switch_defs)
  done

lemma adds_init_contents:
  "length xs \<le> 253 \<Longrightarrow>
   PS2_buffer_contents (PS2_buffer_adds xs PS2_buffer_init) = xs \<and>
   PS2_buffer_inv (PS2_buffer_adds xs PS2_buffer_init)"
  using adds_contents [OF init_inv, of xs] adds_inv [OF init_inv, of xs]
  by (simp add: init_contents)

lemma run_from_init:
  assumes "length xs \<le> 253" and "n = length xs"
  shows "fst (process_PS2_ScanCodes n f (PS2_buffer_adds xs PS2_buffer_init)) =
      fst (scanCode_actions xs f)"
    and "fst (snd (process_PS2_ScanCodes n f (PS2_buffer_adds xs PS2_buffer_init))) =
      snd (scanCode_actions xs f)"
proof -
  from adds_init_contents [OF assms(1)]
  have c: "PS2_buffer_contents (PS2_buffer_adds xs PS2_buffer_init) = xs @ []"
    and i: "PS2_buffer_inv (PS2_buffer_adds xs PS2_buffer_init)"
    by simp_all
  from process_run [OF i c, of f]
  show "fst (process_PS2_ScanCodes n f (PS2_buffer_adds xs PS2_buffer_init)) =
      fst (scanCode_actions xs f)"
    and "fst (snd (process_PS2_ScanCodes n f (PS2_buffer_adds xs PS2_buffer_init))) =
      snd (scanCode_actions xs f)"
    unfolding assms(2) by blast+
qed

lemma process_zero:
  "fst (get_PS2_ScanCode b) = 0 \<Longrightarrow>
   process_PS2_ScanCode f b = ([], f, snd (get_PS2_ScanCode b))"
  by (simp add: process_action scanCode_action_def)

text \<open>
  C9. \<open>get_PS2_ScanCode\<close> returns 0 for an empty buffer and also when the byte read is 0,
  and \<open>process_PS2_ScanCode\<close> takes a returned 0 as no byte: no driver call, the flags
  unchanged. So the validly framed scan code 0, which the decoder does add to the buffer,
  is read and dropped with the same visible outcome as an empty buffer.
\<close>

theorem zero_scan_code_is_no_byte:
  "(PS2_ScanCodeBuffer_Start b = PS2_ScanCodeBuffer_End b \<longrightarrow>
      get_PS2_ScanCode b = (0, b) \<and> process_PS2_ScanCode f b = ([], f, b)) \<and>
   (PS2_buffer_inv b \<and> PS2_buffer_contents b = 0 # rest \<longrightarrow>
      fst (get_PS2_ScanCode b) = 0 \<and>
      PS2_buffer_contents (snd (get_PS2_ScanCode b)) = rest \<and>
      process_PS2_ScanCode f b = ([], f, snd (get_PS2_ScanCode b))) \<and>
   (bitCount d = 0 \<and> parityCount d = 0 \<and> PS2_buffer_inv b \<and> PS2_buffer_contents b = [] \<and>
    map (line_bit bm) ps = PS2_frame 0 \<longrightarrow>
      PS2_buffer_contents (snd (PS2_Interrupts bm ps (d, b))) = [0] \<and>
      fst (process_PS2_ScanCode f (snd (PS2_Interrupts bm ps (d, b)))) = [] \<and>
      fst (snd (process_PS2_ScanCode f (snd (PS2_Interrupts bm ps (d, b))))) = f \<and>
      PS2_buffer_contents
        (snd (snd (process_PS2_ScanCode f (snd (PS2_Interrupts bm ps (d, b)))))) = [])"
proof -
  have 1: "get_PS2_ScanCode b = (0, b) \<and> process_PS2_ScanCode f b = ([], f, b)"
    if "PS2_ScanCodeBuffer_Start b = PS2_ScanCodeBuffer_End b"
    using get_empty [OF that] process_zero [of b f] by simp
  have 2: "fst (get_PS2_ScanCode b) = 0 \<and>
      PS2_buffer_contents (snd (get_PS2_ScanCode b)) = rest \<and>
      process_PS2_ScanCode f b = ([], f, snd (get_PS2_ScanCode b))"
    if "PS2_buffer_inv b" "PS2_buffer_contents b = 0 # rest" for b rest
    using get_nonempty(1,2) [OF that] process_zero [of b f] by simp
  have 3: "PS2_buffer_contents (snd (PS2_Interrupts bm ps (d, b))) = [0] \<and>
      fst (process_PS2_ScanCode f (snd (PS2_Interrupts bm ps (d, b)))) = [] \<and>
      fst (snd (process_PS2_ScanCode f (snd (PS2_Interrupts bm ps (d, b))))) = f \<and>
      PS2_buffer_contents
        (snd (snd (process_PS2_ScanCode f (snd (PS2_Interrupts bm ps (d, b)))))) = []"
    if h: "bitCount d = 0" "parityCount d = 0" "PS2_buffer_inv b" "PS2_buffer_contents b = []"
      "map (line_bit bm) ps = PS2_frame 0"
  proof -
    have "length (map (line_bit bm) ps) = 11"
      unfolding h(5) by (rule PS2_frame_length)
    then have l: "length ps = 11" by simp
    have r: "snd (PS2_Interrupts bm ps (d, b)) = PS2_buffer_add 0 b"
      unfolding frame_run(1) [OF h(1,2) l] h(5)
      by (simp only: PS2_frame_valid PS2_frame_byte if_True)
    have c: "PS2_buffer_contents (PS2_buffer_add 0 b) = [0]"
      using add_contents [OF h(3), of 0] h(4) by simp
    from 2 [OF add_inv [OF h(3)] c] c show ?thesis
      unfolding r by simp
  qed
  from 1 2 3 show ?thesis by blast
qed

theorem zero_scan_code_is_no_byte_witness:
  "bitCount PS2_decoder_init = 0 \<and> parityCount PS2_decoder_init = 0 \<and>
   PS2_buffer_inv PS2_buffer_init \<and> PS2_buffer_contents PS2_buffer_init = [] \<and>
   map (line_bit 2) [0, 0, 0, 0, 0, 0, 0, 0, 0, 2, 2] = PS2_frame 0 \<and>
   PS2_buffer_contents (snd (PS2_Interrupts 2 [0, 0, 0, 0, 0, 0, 0, 0, 0, 2, 2]
     (PS2_decoder_init, PS2_buffer_init))) = [0] \<and>
   fst (process_PS2_ScanCode \<lparr>key_release = 1, extended = 1\<rparr>
     (snd (PS2_Interrupts 2 [0, 0, 0, 0, 0, 0, 0, 0, 0, 2, 2]
       (PS2_decoder_init, PS2_buffer_init)))) = [] \<and>
   fst (snd (process_PS2_ScanCode \<lparr>key_release = 1, extended = 1\<rparr>
     (snd (PS2_Interrupts 2 [0, 0, 0, 0, 0, 0, 0, 0, 0, 2, 2]
       (PS2_decoder_init, PS2_buffer_init))))) = \<lparr>key_release = 1, extended = 1\<rparr>"
proof -
  have h1: "bitCount PS2_decoder_init = 0" and h2: "parityCount PS2_decoder_init = 0"
    by (simp_all add: PS2_decoder_init_def)
  have h4: "map (line_bit 2) [0, 0, 0, 0, 0, 0, 0, 0, 0, 2, 2] = PS2_frame 0"
    by (simp add: line_bit_def PS2_frame_def upt_0_8)
  from zero_scan_code_is_no_byte [of PS2_buffer_init "\<lparr>key_release = 1, extended = 1\<rparr>" "[]"
      PS2_decoder_init 2 "[0, 0, 0, 0, 0, 0, 0, 0, 0, 2, 2]"]
    h1 h2 init_inv init_contents h4
  show ?thesis by (simp only: simp_thms)
qed

text \<open>
  C4: the code does not clear the flags on every path. The keypad codes guarded by
  \<open>extended == 0\<close> (here 0x69) leave both switch values at \<open>NO_SWITCH_ACTION\<close> when the
  extended flag is set, and neither the \<open>default\<close> branch nor the final clearing runs:
  after the bytes E0 69 (End pressed) the extended flag is still set. After End is pressed
  and released (E0 69, E0 F0 69) both flags are still set, and the next key press (1C, the
  letter A) is issued to the driver as a release.
\<close>

theorem extended_keypad_code_keeps_flags:
  "fst (snd (process_PS2_ScanCodes 2 ps2_flags_init
     (PS2_buffer_adds [0xE0, 0x69] PS2_buffer_init))) = \<lparr>key_release = 0, extended = 1\<rparr> \<and>
   fst (snd (process_PS2_ScanCodes 5 ps2_flags_init
     (PS2_buffer_adds [0xE0, 0x69, 0xE0, 0xF0, 0x69] PS2_buffer_init))) =
     \<lparr>key_release = 1, extended = 1\<rparr> \<and>
   fst (process_PS2_ScanCodes 6 ps2_flags_init
     (PS2_buffer_adds [0xE0, 0x69, 0xE0, 0xF0, 0x69, 0x1C] PS2_buffer_init)) =
     [(False, Switch_A_a), (False, Switch_A_b)]"
proof -
  have a1: "scanCode_actions [0xE0, 0x69] ps2_flags_init = ([], \<lparr>key_release = 0, extended = 1\<rparr>)"
    by (simp add: scanCode_action_def switch_E0 switch_69 ps2_flags_init_def)
  have a2: "scanCode_actions [0xE0, 0x69, 0xE0, 0xF0, 0x69] ps2_flags_init =
      ([], \<lparr>key_release = 1, extended = 1\<rparr>)"
    by (simp add: scanCode_action_def switch_E0 switch_F0 switch_69 ps2_flags_init_def)
  have "(0x1C, Switch_A_a, Switch_A_b) \<in> set letter_keys"
    by (simp add: letter_keys_def)
  note sA = switch_letter [OF this]
  have a3: "scanCode_actions [0xE0, 0x69, 0xE0, 0xF0, 0x69, 0x1C] ps2_flags_init =
      ([(False, Switch_A_a), (False, Switch_A_b)], \<lparr>key_release = 0, extended = 0\<rparr>)"
    by (simp add: scanCode_action_def switch_E0 switch_F0 switch_69 sA ps2_flags_init_def)
  have r1: "fst (snd (process_PS2_ScanCodes 2 ps2_flags_init
     (PS2_buffer_adds [0xE0, 0x69] PS2_buffer_init))) = \<lparr>key_release = 0, extended = 1\<rparr>"
    by (subst run_from_init(2) [of "[0xE0, 0x69]" 2]) (simp_all only: a1 snd_conv, simp_all)
  have r2: "fst (snd (process_PS2_ScanCodes 5 ps2_flags_init
      (PS2_buffer_adds [0xE0, 0x69, 0xE0, 0xF0, 0x69] PS2_buffer_init))) =
      \<lparr>key_release = 1, extended = 1\<rparr>"
    by (subst run_from_init(2) [of "[0xE0, 0x69, 0xE0, 0xF0, 0x69]" 5])
      (simp_all only: a2 snd_conv, simp_all)
  have r3: "fst (process_PS2_ScanCodes 6 ps2_flags_init
      (PS2_buffer_adds [0xE0, 0x69, 0xE0, 0xF0, 0x69, 0x1C] PS2_buffer_init)) =
      [(False, Switch_A_a), (False, Switch_A_b)]"
    by (subst run_from_init(1) [of "[0xE0, 0x69, 0xE0, 0xF0, 0x69, 0x1C]" 6])
      (simp_all only: a3 fst_conv, simp_all)
  from r1 r2 r3 show ?thesis by (simp only: simp_thms)
qed

lemma process_run_2:
  assumes "PS2_buffer_inv b" and "PS2_buffer_contents b = c1 # c2 # rest"
  shows "fst (process_PS2_ScanCodes 2 f b) = fst (scanCode_actions [c1, c2] f)"
    and "fst (snd (process_PS2_ScanCodes 2 f b)) = snd (scanCode_actions [c1, c2] f)"
    and "PS2_buffer_contents (snd (snd (process_PS2_ScanCodes 2 f b))) = rest"
proof -
  have c: "PS2_buffer_contents b = [c1, c2] @ rest" using assms(2) by simp
  have l: "length [c1, c2] = 2" by simp
  from process_run [OF assms(1) c, of f]
  show "fst (process_PS2_ScanCodes 2 f b) = fst (scanCode_actions [c1, c2] f)"
    and "fst (snd (process_PS2_ScanCodes 2 f b)) = snd (scanCode_actions [c1, c2] f)"
    and "PS2_buffer_contents (snd (snd (process_PS2_ScanCodes 2 f b))) = rest"
    unfolding l by blast+
qed

lemma process_run_1:
  assumes "PS2_buffer_inv b" and "PS2_buffer_contents b = c # rest"
  shows "fst (process_PS2_ScanCode f b) = fst (scanCode_action c f)"
    and "fst (snd (process_PS2_ScanCode f b)) = snd (scanCode_action c f)"
  using get_nonempty(1) [OF assms] by (simp_all add: process_action)

lemma action_6B:
  "scanCode_action 0x6B f =
     (if extended f \<noteq> 0
      then [(key_release f = 0, Switch_LEFT_a), (key_release f = 0, Switch_LEFT_b)]
      else [(key_release f = 0, Switch_4_a), (key_release f = 0, Switch_4_b)],
      f\<lparr>key_release := 0, extended := 0\<rparr>)"
  by (simp add: scanCode_action_def switch_6B) (simp add: switch_defs)

lemma action_74:
  "scanCode_action 0x74 f =
     (if extended f \<noteq> 0
      then [(key_release f = 0, Switch_RIGHT)]
      else [(key_release f = 0, Switch_6_a), (key_release f = 0, Switch_6_b)],
      f\<lparr>key_release := 0, extended := 0\<rparr>)"
  by (simp add: scanCode_action_def switch_74) (simp add: switch_defs)

lemma action_extended_prefix:
  "e = 0xE0 \<or> e = 0xE1 \<Longrightarrow> scanCode_action e f = ([], f\<lparr>extended := 1\<rparr>)"
  by (auto simp: scanCode_action_def switch_E0 switch_E1)

lemma action_F0: "scanCode_action 0xF0 f = ([], f\<lparr>key_release := 1\<rparr>)"
  by (simp add: scanCode_action_def switch_F0)

lemma action_letter:
  "(c, a, b) \<in> set letter_keys \<Longrightarrow>
   scanCode_action c f =
     ([(key_release f = 0, a), (key_release f = 0, b)], f\<lparr>key_release := 0, extended := 0\<rparr>)"
  using switch_letter [of c a b f] by (simp add: scanCode_action_def)

text \<open>
  C5. The scan codes 0x6B and 0x74 are shared between a keypad key and an arrow key. With
  the extended flag clear they resolve to the switch pair of the keypad digit (4 and 6);
  with the flag set, in particular set by a preceding prefix byte 0xE0 or 0xE1, they
  resolve to the switches of LEFT and RIGHT. The call closes the switch unless the release
  flag is set.
\<close>

theorem shared_codes_resolved_by_extended:
  assumes "PS2_buffer_inv b"
  shows "(PS2_buffer_contents b = 0x6B # rest \<and> extended f = 0 \<longrightarrow>
        fst (process_PS2_ScanCode f b) =
          [(key_release f = 0, Switch_4_a), (key_release f = 0, Switch_4_b)]) \<and>
     (PS2_buffer_contents b = 0x74 # rest \<and> extended f = 0 \<longrightarrow>
        fst (process_PS2_ScanCode f b) =
          [(key_release f = 0, Switch_6_a), (key_release f = 0, Switch_6_b)]) \<and>
     (PS2_buffer_contents b = 0x6B # rest \<and> extended f \<noteq> 0 \<longrightarrow>
        fst (process_PS2_ScanCode f b) =
          [(key_release f = 0, Switch_LEFT_a), (key_release f = 0, Switch_LEFT_b)]) \<and>
     (PS2_buffer_contents b = 0x74 # rest \<and> extended f \<noteq> 0 \<longrightarrow>
        fst (process_PS2_ScanCode f b) = [(key_release f = 0, Switch_RIGHT)]) \<and>
     (PS2_buffer_contents b = e # 0x6B # rest \<and> (e = 0xE0 \<or> e = 0xE1) \<longrightarrow>
        fst (process_PS2_ScanCodes 2 f b) =
          [(key_release f = 0, Switch_LEFT_a), (key_release f = 0, Switch_LEFT_b)]) \<and>
     (PS2_buffer_contents b = e # 0x74 # rest \<and> (e = 0xE0 \<or> e = 0xE1) \<longrightarrow>
        fst (process_PS2_ScanCodes 2 f b) = [(key_release f = 0, Switch_RIGHT)])"
proof (intro conjI impI; elim conjE)
  assume "PS2_buffer_contents b = 0x6B # rest" "extended f = 0"
  then show "fst (process_PS2_ScanCode f b) =
      [(key_release f = 0, Switch_4_a), (key_release f = 0, Switch_4_b)]"
    using process_run_1(1) [OF assms, of "0x6B" rest f] by (simp add: action_6B)
next
  assume "PS2_buffer_contents b = 0x74 # rest" "extended f = 0"
  then show "fst (process_PS2_ScanCode f b) =
      [(key_release f = 0, Switch_6_a), (key_release f = 0, Switch_6_b)]"
    using process_run_1(1) [OF assms, of "0x74" rest f] by (simp add: action_74)
next
  assume "PS2_buffer_contents b = 0x6B # rest" "extended f \<noteq> 0"
  then show "fst (process_PS2_ScanCode f b) =
      [(key_release f = 0, Switch_LEFT_a), (key_release f = 0, Switch_LEFT_b)]"
    using process_run_1(1) [OF assms, of "0x6B" rest f] by (simp add: action_6B)
next
  assume "PS2_buffer_contents b = 0x74 # rest" "extended f \<noteq> 0"
  then show "fst (process_PS2_ScanCode f b) = [(key_release f = 0, Switch_RIGHT)]"
    using process_run_1(1) [OF assms, of "0x74" rest f] by (simp add: action_74)
next
  assume c: "PS2_buffer_contents b = e # 0x6B # rest" and e: "e = 0xE0 \<or> e = 0xE1"
  show "fst (process_PS2_ScanCodes 2 f b) =
      [(key_release f = 0, Switch_LEFT_a), (key_release f = 0, Switch_LEFT_b)]"
    unfolding process_run_2(1) [OF assms c]
    by (simp add: action_extended_prefix [OF e] action_6B)
next
  assume c: "PS2_buffer_contents b = e # 0x74 # rest" and e: "e = 0xE0 \<or> e = 0xE1"
  show "fst (process_PS2_ScanCodes 2 f b) = [(key_release f = 0, Switch_RIGHT)]"
    unfolding process_run_2(1) [OF assms c]
    by (simp add: action_extended_prefix [OF e] action_74)
qed

theorem shared_codes_resolved_by_extended_witness:
  "PS2_buffer_inv (PS2_buffer_adds [0xE0, 0x6B] PS2_buffer_init) \<and>
   PS2_buffer_contents (PS2_buffer_adds [0xE0, 0x6B] PS2_buffer_init) = [0xE0, 0x6B] \<and>
   fst (process_PS2_ScanCodes 2 ps2_flags_init (PS2_buffer_adds [0xE0, 0x6B] PS2_buffer_init)) =
     [(True, Switch_LEFT_a), (True, Switch_LEFT_b)] \<and>
   PS2_buffer_inv (PS2_buffer_adds [0x6B] PS2_buffer_init) \<and>
   PS2_buffer_contents (PS2_buffer_adds [0x6B] PS2_buffer_init) = [0x6B] \<and>
   extended ps2_flags_init = 0 \<and>
   fst (process_PS2_ScanCode ps2_flags_init (PS2_buffer_adds [0x6B] PS2_buffer_init)) =
     [(True, Switch_4_a), (True, Switch_4_b)]"
proof -
  have a: "PS2_buffer_contents (PS2_buffer_adds [0xE0, 0x6B] PS2_buffer_init) = [0xE0, 0x6B]"
    and ai: "PS2_buffer_inv (PS2_buffer_adds [0xE0, 0x6B] PS2_buffer_init)"
    using adds_init_contents [of "[0xE0, 0x6B]"] by simp_all
  have b: "PS2_buffer_contents (PS2_buffer_adds [0x6B] PS2_buffer_init) = [0x6B]"
    and bi: "PS2_buffer_inv (PS2_buffer_adds [0x6B] PS2_buffer_init)"
    using adds_init_contents [of "[0x6B]"] by simp_all
  have k: "key_release ps2_flags_init = 0" and x: "extended ps2_flags_init = 0"
    by (simp_all add: ps2_flags_init_def)
  have 1: "fst (process_PS2_ScanCodes 2 ps2_flags_init
      (PS2_buffer_adds [0xE0, 0x6B] PS2_buffer_init)) =
      [(True, Switch_LEFT_a), (True, Switch_LEFT_b)]"
    using shared_codes_resolved_by_extended [OF ai, of "[]" ps2_flags_init "0xE0"] a k
    by simp
  have 2: "fst (process_PS2_ScanCode ps2_flags_init (PS2_buffer_adds [0x6B] PS2_buffer_init)) =
      [(True, Switch_4_a), (True, Switch_4_b)]"
    using shared_codes_resolved_by_extended [OF bi, of "[]" ps2_flags_init] b k x
    by simp
  from a ai b bi x 1 2 show ?thesis by (simp only: simp_thms)
qed

text \<open>
  C6. The release prefix 0xF0 followed directly by the scan code of a letter key makes the
  interpreter issue exactly the two calls that open the two switches of that key, in the
  order a, b, and leaves both flags clear, whatever the flags were before.
\<close>

theorem release_prefix_then_letter:
  assumes "(c, a, sb) \<in> set letter_keys"
    and "PS2_buffer_inv b"
    and "PS2_buffer_contents b = 0xF0 # c # rest"
  shows "fst (process_PS2_ScanCodes 2 f b) = [(False, a), (False, sb)] \<and>
     fst (snd (process_PS2_ScanCodes 2 f b)) = \<lparr>key_release = 0, extended = 0\<rparr> \<and>
     PS2_buffer_contents (snd (snd (process_PS2_ScanCodes 2 f b))) = rest"
proof -
  have "scanCode_actions [0xF0, c] f =
      ([(False, a), (False, sb)], \<lparr>key_release = 0, extended = 0\<rparr>)"
    by (simp add: action_F0 action_letter [OF assms(1)])
  then show ?thesis
    using process_run_2 [OF assms(2,3), of f] by simp
qed

theorem release_prefix_then_letter_witness:
  "(0x1C, Switch_A_a, Switch_A_b) \<in> set letter_keys \<and>
   PS2_buffer_inv (PS2_buffer_adds [0xF0, 0x1C] PS2_buffer_init) \<and>
   PS2_buffer_contents (PS2_buffer_adds [0xF0, 0x1C] PS2_buffer_init) = [0xF0, 0x1C] \<and>
   fst (process_PS2_ScanCodes 2 \<lparr>key_release = 0, extended = 1\<rparr>
     (PS2_buffer_adds [0xF0, 0x1C] PS2_buffer_init)) = [(False, 0x14), (False, 0x10)] \<and>
   fst (snd (process_PS2_ScanCodes 2 \<lparr>key_release = 0, extended = 1\<rparr>
     (PS2_buffer_adds [0xF0, 0x1C] PS2_buffer_init))) = \<lparr>key_release = 0, extended = 0\<rparr>"
proof -
  have h1: "(0x1C, Switch_A_a, Switch_A_b) \<in> set letter_keys"
    by (simp add: letter_keys_def)
  have h3: "PS2_buffer_contents (PS2_buffer_adds [0xF0, 0x1C] PS2_buffer_init) = [0xF0, 0x1C]"
    and h2: "PS2_buffer_inv (PS2_buffer_adds [0xF0, 0x1C] PS2_buffer_init)"
    using adds_init_contents [of "[0xF0, 0x1C]"] by simp_all
  have v: "Switch_A_a = 0x14" "Switch_A_b = 0x10" by (simp_all add: switch_defs)
  from release_prefix_then_letter [OF h1 h2 h3, of "\<lparr>key_release = 0, extended = 1\<rparr>"] h1 h2 h3
  show ?thesis unfolding v by (simp only: simp_thms)
qed

subsection \<open>Which scan codes clear the flags\<close>

text \<open>
  The flags are cleared by every scan code other than 0 and the three prefix codes, except
  by the nine keypad codes guarded by \<open>extended == 0\<close> when the extended flag is set:
  those return with no driver call and with both flags as they were.
\<close>

lemma flags_kept_by_guarded_keypad_codes:
  assumes "c \<in> {0x69, 0x72, 0x7A, 0x12, 0x6C, 0x75, 0x7D, 0x70, 0x71}" and "extended f \<noteq> 0"
  shows "scanCode_action c f = ([], f)"
  using assms
  apply (simp only: insert_iff empty_iff)
  apply (elim disjE FalseE)
  apply (simp_all add: scanCode_action_def scanCode_switch_def)
  done

lemma flags_cleared_guarded_keypad_codes:
  assumes "c \<in> {0x69, 0x72, 0x7A, 0x12, 0x6C, 0x75, 0x7D, 0x70, 0x71}" and "extended f = 0"
  shows "snd (scanCode_action c f) = \<lparr>key_release = 0, extended = 0\<rparr>"
  using assms
  apply (simp only: insert_iff empty_iff)
  apply (elim disjE FalseE)
  apply (simp_all add: scanCode_action_def scanCode_switch_def)
  apply (simp_all add: switch_defs)
  done

lemma flags_cleared_key_codes:
  assumes "c \<in> {0x16, 0x1E, 0x26, 0x25, 0x2E, 0x73, 0x36, 0x15, 0x1D, 0x24, 0x2D, 0x2C, 0x6B, 0x66, 0x1C, 0x1B, 0x23, 0x2B, 0x34, 0x59, 0x1A, 0x22, 0x21, 0x2A, 0x32, 0x14, 0x3D, 0x3E, 0x46, 0x45, 0x52, 0x4E, 0x7B, 0x35, 0x3C, 0x43, 0x44, 0x4D, 0x5A, 0x33, 0x3B, 0x42, 0x4B, 0x4C, 0x31, 0x3A, 0x41, 0x49, 0x4A, 0x74, 0x29}"
  shows "snd (scanCode_action c f) = \<lparr>key_release = 0, extended = 0\<rparr>"
  using assms
  apply (simp only: insert_iff empty_iff)
  apply (elim disjE FalseE)
  apply (simp_all add: scanCode_action_def scanCode_switch_def)
  apply (simp_all add: switch_defs)
  done

lemma flags_cleared_other_codes:
  assumes "c \<notin> {0x16, 0x1E, 0x26, 0x25, 0x2E, 0x73, 0x36, 0x15, 0x1D, 0x24, 0x2D, 0x2C, 0x6B, 0x66, 0x1C, 0x1B, 0x23, 0x2B, 0x34, 0x59, 0x1A, 0x22, 0x21, 0x2A, 0x32, 0x14, 0x3D, 0x3E, 0x46, 0x45, 0x52, 0x4E, 0x7B, 0x35, 0x3C, 0x43, 0x44, 0x4D, 0x5A, 0x33, 0x3B, 0x42, 0x4B, 0x4C, 0x31, 0x3A, 0x41, 0x49, 0x4A, 0x74, 0x29}"
    and "c \<notin> {0x69, 0x72, 0x7A, 0x12, 0x6C, 0x75, 0x7D, 0x70, 0x71}"
    and "c \<noteq> 0" and "c \<noteq> 0xF0" and "c \<noteq> 0xE0" and "c \<noteq> 0xE1"
  shows "snd (scanCode_action c f) = \<lparr>key_release = 0, extended = 0\<rparr>"
  using assms
  by (simp add: scanCode_action_def scanCode_switch_def switch_defs)

lemma flags_after_action:
  assumes "c \<noteq> 0" and "c \<noteq> 0xF0" and "c \<noteq> 0xE0" and "c \<noteq> 0xE1"
    and "\<not> (c \<in> {0x69, 0x72, 0x7A, 0x12, 0x6C, 0x75, 0x7D, 0x70, 0x71} \<and> extended f \<noteq> 0)"
  shows "snd (scanCode_action c f) = \<lparr>key_release = 0, extended = 0\<rparr>"
  using assms flags_cleared_other_codes [of c f] flags_cleared_key_codes [of c f]
    flags_cleared_guarded_keypad_codes [of c f]
  by blast

lemma process_flags_cleared:
  assumes "PS2_buffer_inv b" and "PS2_buffer_contents b = c # rest"
    and "c \<noteq> 0" and "c \<noteq> 0xF0" and "c \<noteq> 0xE0" and "c \<noteq> 0xE1"
    and "\<not> (c \<in> {0x69, 0x72, 0x7A, 0x12, 0x6C, 0x75, 0x7D, 0x70, 0x71} \<and> extended f \<noteq> 0)"
  shows "fst (snd (process_PS2_ScanCode f b)) = \<lparr>key_release = 0, extended = 0\<rparr>"
  unfolding process_run_1(2) [OF assms(1,2)]
  using assms(3-7) by (rule flags_after_action)

lemma process_flags_kept:
  assumes "PS2_buffer_inv b" and "PS2_buffer_contents b = c # rest"
    and "c \<in> {0x69, 0x72, 0x7A, 0x12, 0x6C, 0x75, 0x7D, 0x70, 0x71}" and "extended f \<noteq> 0"
  shows "fst (process_PS2_ScanCode f b) = [] \<and> fst (snd (process_PS2_ScanCode f b)) = f"
  unfolding process_run_1 [OF assms(1,2)]
  using flags_kept_by_guarded_keypad_codes [OF assms(3,4)] by simp

section \<open>The joystick samplers: order of the driver calls\<close>

lemma joyLeft_direction_opens_first: "opens_first (joyLeft_direction dir)"
  by (simp add: joyLeft_direction_def)

lemma joyRight_direction_opens_first: "opens_first (joyRight_direction dir)"
  by (simp add: joyRight_direction_def)

lemma joyLeft_direction_addresses:
  "set (map snd (joyLeft_direction dir)) \<subseteq>
     {Switch_JoyL_Up, Switch_JoyL_Down, Switch_JoyL_Left, Switch_JoyL_Right,
      Switch_JoyL_UpLeft_Extra, Switch_JoyL_UpRightDownLeft_Extra,
      Switch_JoyL_DownRight_Extra}"
  by (simp add: joyLeft_direction_def)

lemma joyRight_direction_addresses:
  "set (map snd (joyRight_direction dir)) \<subseteq>
     {Switch_JoyR_Up, Switch_JoyR_Down, Switch_JoyR_Left, Switch_JoyR_Right,
      Switch_JoyR_UpLeft_Extra, Switch_JoyR_UpRightDownLeft_Extra,
      Switch_JoyR_DownRight_Extra}"
  by (simp add: joyRight_direction_def)

lemma process_Joystick_Left_split:
  "fst (process_Joystick_Left portd prev) = [] \<or>
   (map snd (take 2 (fst (process_Joystick_Left portd prev))) =
      [Switch_JoyL_Button1, Switch_JoyL_Button2] \<and>
    drop 2 (fst (process_Joystick_Left portd prev)) =
      joyLeft_direction (readJoystick_Left portd AND 0x0F))"
  by (simp add: process_Joystick_Left_def Let_def)

lemma process_Joystick_Right_split:
  "fst (process_Joystick_Right portc portd prev) = [] \<or>
   (map snd (take 2 (fst (process_Joystick_Right portc portd prev))) =
      [Switch_JoyR_Button1, Switch_JoyR_Button2] \<and>
    drop 2 (fst (process_Joystick_Right portc portd prev)) =
      joyRight_direction (readJoystick_Right portc portd AND 0x0F))"
  by (simp add: process_Joystick_Right_def Let_def)

text \<open>
  C7. For either joystick, when the stored snapshot is "none" and the raw snapshot is
  Up+Left, the sampler issues nine calls, of which exactly three close a crosspoint: the
  UpLeft extra crosspoint, Up and Left, three different addresses. A poll whose raw
  snapshot equals the stored one issues no call.
\<close>

theorem joystick_up_left_diagonal:
  "(readJoystick_Left portd = 0x05 \<longrightarrow>
      fst (process_Joystick_Left portd 0) =
        [(False, Switch_JoyL_Button1), (False, Switch_JoyL_Button2),
         (False, Switch_JoyL_Down), (False, Switch_JoyL_Right),
         (False, Switch_JoyL_UpRightDownLeft_Extra), (False, Switch_JoyL_DownRight_Extra),
         (True, Switch_JoyL_UpLeft_Extra), (True, Switch_JoyL_Up), (True, Switch_JoyL_Left)] \<and>
      filter fst (fst (process_Joystick_Left portd 0)) =
        [(True, Switch_JoyL_UpLeft_Extra), (True, Switch_JoyL_Up), (True, Switch_JoyL_Left)] \<and>
      snd (process_Joystick_Left portd 0) = 0x05) \<and>
   (readJoystick_Right portc portd' = 0x05 \<longrightarrow>
      fst (process_Joystick_Right portc portd' 0) =
        [(False, Switch_JoyR_Button1), (False, Switch_JoyR_Button2),
         (False, Switch_JoyR_Down), (False, Switch_JoyR_Right),
         (False, Switch_JoyR_UpRightDownLeft_Extra), (False, Switch_JoyR_DownRight_Extra),
         (True, Switch_JoyR_UpLeft_Extra), (True, Switch_JoyR_Up), (True, Switch_JoyR_Left)] \<and>
      filter fst (fst (process_Joystick_Right portc portd' 0)) =
        [(True, Switch_JoyR_UpLeft_Extra), (True, Switch_JoyR_Up), (True, Switch_JoyR_Left)] \<and>
      snd (process_Joystick_Right portc portd' 0) = 0x05) \<and>
   distinct [Switch_JoyL_UpLeft_Extra, Switch_JoyL_Up, Switch_JoyL_Left] \<and>
   distinct [Switch_JoyR_UpLeft_Extra, Switch_JoyR_Up, Switch_JoyR_Left] \<and>
   process_Joystick_Left portd (readJoystick_Left portd) = ([], readJoystick_Left portd) \<and>
   process_Joystick_Right portc portd' (readJoystick_Right portc portd') =
     ([], readJoystick_Right portc portd')"
proof -
  have l: "fst (process_Joystick_Left portd 0) =
        [(False, Switch_JoyL_Button1), (False, Switch_JoyL_Button2),
         (False, Switch_JoyL_Down), (False, Switch_JoyL_Right),
         (False, Switch_JoyL_UpRightDownLeft_Extra), (False, Switch_JoyL_DownRight_Extra),
         (True, Switch_JoyL_UpLeft_Extra), (True, Switch_JoyL_Up), (True, Switch_JoyL_Left)] \<and>
      snd (process_Joystick_Left portd 0) = 0x05"
    if "readJoystick_Left portd = 0x05"
    using that by (simp add: process_Joystick_Left_def joyLeft_direction_def)
  have r: "fst (process_Joystick_Right portc portd' 0) =
        [(False, Switch_JoyR_Button1), (False, Switch_JoyR_Button2),
         (False, Switch_JoyR_Down), (False, Switch_JoyR_Right),
         (False, Switch_JoyR_UpRightDownLeft_Extra), (False, Switch_JoyR_DownRight_Extra),
         (True, Switch_JoyR_UpLeft_Extra), (True, Switch_JoyR_Up), (True, Switch_JoyR_Left)] \<and>
      snd (process_Joystick_Right portc portd' 0) = 0x05"
    if "readJoystick_Right portc portd' = 0x05"
    using that by (simp add: process_Joystick_Right_def joyRight_direction_def)
  have d: "distinct [Switch_JoyL_UpLeft_Extra, Switch_JoyL_Up, Switch_JoyL_Left] \<and>
      distinct [Switch_JoyR_UpLeft_Extra, Switch_JoyR_Up, Switch_JoyR_Left]"
    by (simp add: switch_defs)
  have s: "process_Joystick_Left portd (readJoystick_Left portd) = ([], readJoystick_Left portd) \<and>
      process_Joystick_Right portc portd' (readJoystick_Right portc portd') =
        ([], readJoystick_Right portc portd')"
    by (simp add: process_Joystick_Left_def process_Joystick_Right_def)
  from l r d s show ?thesis by simp
qed

theorem joystick_up_left_diagonal_witness:
  "readJoystick_Left 0xEB = 0x05 \<and>
   map snd (filter fst (fst (process_Joystick_Left 0xEB 0))) = [0x04, 0x03, 0x05] \<and>
   process_Joystick_Left 0xEB (snd (process_Joystick_Left 0xEB 0)) = ([], 0x05) \<and>
   readJoystick_Right 0xFA 0xFF = 0x05 \<and>
   map snd (filter fst (fst (process_Joystick_Right 0xFA 0xFF 0))) = [0x2C, 0x2B, 0x2D] \<and>
   process_Joystick_Right 0xFA 0xFF (snd (process_Joystick_Right 0xFA 0xFF 0)) = ([], 0x05)"
proof -
  have h1: "readJoystick_Left 0xEB = 0x05" by (simp add: readJoystick_Left_def)
  have h2: "readJoystick_Right 0xFA 0xFF = 0x05" by (simp add: readJoystick_Right_def)
  have v: "Switch_JoyL_UpLeft_Extra = 0x04" "Switch_JoyL_Up = 0x03" "Switch_JoyL_Left = 0x05"
    "Switch_JoyR_UpLeft_Extra = 0x2C" "Switch_JoyR_Up = 0x2B" "Switch_JoyR_Left = 0x2D"
    by (simp_all add: switch_defs)
  from joystick_up_left_diagonal [of "0xEB" "0xFA" "0xFF"] h1 h2
  show ?thesis unfolding v by simp
qed

text \<open>
  C8, as amended. In every poll of either sampler the calls for the seven direction
  crosspoints come after the two button calls, and among them every open is issued before
  any close. The two button calls come first and are each an open or a close according to
  the button bit.
\<close>

theorem joystick_direction_opens_before_closes:
  "opens_first (drop 2 (fst (process_Joystick_Left portd prev))) \<and>
   set (map snd (drop 2 (fst (process_Joystick_Left portd prev)))) \<subseteq>
     {Switch_JoyL_Up, Switch_JoyL_Down, Switch_JoyL_Left, Switch_JoyL_Right,
      Switch_JoyL_UpLeft_Extra, Switch_JoyL_UpRightDownLeft_Extra,
      Switch_JoyL_DownRight_Extra} \<and>
   (readJoystick_Left portd \<noteq> prev \<longrightarrow>
      take 2 (fst (process_Joystick_Left portd prev)) =
        [(readJoystick_Left portd AND 0x10 \<noteq> 0, Switch_JoyL_Button1),
         (readJoystick_Left portd AND 0x20 \<noteq> 0, Switch_JoyL_Button2)]) \<and>
   opens_first (drop 2 (fst (process_Joystick_Right portc portd prev))) \<and>
   set (map snd (drop 2 (fst (process_Joystick_Right portc portd prev)))) \<subseteq>
     {Switch_JoyR_Up, Switch_JoyR_Down, Switch_JoyR_Left, Switch_JoyR_Right,
      Switch_JoyR_UpLeft_Extra, Switch_JoyR_UpRightDownLeft_Extra,
      Switch_JoyR_DownRight_Extra} \<and>
   (readJoystick_Right portc portd \<noteq> prev \<longrightarrow>
      take 2 (fst (process_Joystick_Right portc portd prev)) =
        [(readJoystick_Right portc portd AND 0x10 \<noteq> 0, Switch_JoyR_Button1),
         (readJoystick_Right portc portd AND 0x20 \<noteq> 0, Switch_JoyR_Button2)])"
proof -
  have dl: "drop 2 (fst (process_Joystick_Left portd prev)) = [] \<or>
      drop 2 (fst (process_Joystick_Left portd prev)) =
        joyLeft_direction (readJoystick_Left portd AND 0x0F)"
    using process_Joystick_Left_split [of portd prev] by auto
  have dr: "drop 2 (fst (process_Joystick_Right portc portd prev)) = [] \<or>
      drop 2 (fst (process_Joystick_Right portc portd prev)) =
        joyRight_direction (readJoystick_Right portc portd AND 0x0F)"
    using process_Joystick_Right_split [of portc portd prev] by auto
  have 1: "opens_first (drop 2 (fst (process_Joystick_Left portd prev)))"
    using dl joyLeft_direction_opens_first by auto
  have 2: "set (map snd (drop 2 (fst (process_Joystick_Left portd prev)))) \<subseteq>
     {Switch_JoyL_Up, Switch_JoyL_Down, Switch_JoyL_Left, Switch_JoyL_Right,
      Switch_JoyL_UpLeft_Extra, Switch_JoyL_UpRightDownLeft_Extra,
      Switch_JoyL_DownRight_Extra}"
    using dl joyLeft_direction_addresses [of "readJoystick_Left portd AND 0x0F"]
    by (elim disjE) (simp_all only: list.map list.set empty_subsetI)
  have 3: "take 2 (fst (process_Joystick_Left portd prev)) =
        [(readJoystick_Left portd AND 0x10 \<noteq> 0, Switch_JoyL_Button1),
         (readJoystick_Left portd AND 0x20 \<noteq> 0, Switch_JoyL_Button2)]"
    if "readJoystick_Left portd \<noteq> prev"
    using that by (simp add: process_Joystick_Left_def Let_def)
  have 4: "opens_first (drop 2 (fst (process_Joystick_Right portc portd prev)))"
    using dr joyRight_direction_opens_first by auto
  have 5: "set (map snd (drop 2 (fst (process_Joystick_Right portc portd prev)))) \<subseteq>
     {Switch_JoyR_Up, Switch_JoyR_Down, Switch_JoyR_Left, Switch_JoyR_Right,
      Switch_JoyR_UpLeft_Extra, Switch_JoyR_UpRightDownLeft_Extra,
      Switch_JoyR_DownRight_Extra}"
    using dr joyRight_direction_addresses [of "readJoystick_Right portc portd AND 0x0F"]
    by (elim disjE) (simp_all only: list.map list.set empty_subsetI)
  have 6: "take 2 (fst (process_Joystick_Right portc portd prev)) =
        [(readJoystick_Right portc portd AND 0x10 \<noteq> 0, Switch_JoyR_Button1),
         (readJoystick_Right portc portd AND 0x20 \<noteq> 0, Switch_JoyR_Button2)]"
    if "readJoystick_Right portc portd \<noteq> prev"
    using that by (simp add: process_Joystick_Right_def Let_def)
  from 1 2 3 4 5 6 show ?thesis by blast
qed

theorem joystick_direction_opens_before_closes_witness:
  "readJoystick_Left 0xAB \<noteq> 0x02 \<and>
   take 2 (fst (process_Joystick_Left 0xAB 0x02)) =
     [(True, Switch_JoyL_Button1), (False, Switch_JoyL_Button2)] \<and>
   opens_first (drop 2 (fst (process_Joystick_Left 0xAB 0x02))) \<and>
   drop 2 (fst (process_Joystick_Left 0xAB 0x02)) =
     [(False, Switch_JoyL_Down), (False, Switch_JoyL_Right),
      (False, Switch_JoyL_UpRightDownLeft_Extra), (False, Switch_JoyL_DownRight_Extra),
      (True, Switch_JoyL_UpLeft_Extra), (True, Switch_JoyL_Up), (True, Switch_JoyL_Left)]"
proof -
  have r: "readJoystick_Left 0xAB = 0x15" by (simp add: readJoystick_Left_def)
  then have h: "readJoystick_Left 0xAB \<noteq> 0x02" by simp
  have d: "drop 2 (fst (process_Joystick_Left 0xAB 0x02)) =
     [(False, Switch_JoyL_Down), (False, Switch_JoyL_Right),
      (False, Switch_JoyL_UpRightDownLeft_Extra), (False, Switch_JoyL_DownRight_Extra),
      (True, Switch_JoyL_UpLeft_Extra), (True, Switch_JoyL_Up), (True, Switch_JoyL_Left)]"
    by (simp add: process_Joystick_Left_def joyLeft_direction_def r)
  from joystick_direction_opens_before_closes [of "0xAB" "0x02"] h d
  show ?thesis by (simp add: r)
qed

text \<open>
  C8 over all the calls of one poll does not hold: with button 1 pressed and nothing else
  (raw snapshot 0x10 after "none"), the first call closes the button 1 crosspoint and the
  calls after it open crosspoints.
\<close>

theorem joystick_button_close_first_counterexample:
  "fst (process_Joystick_Left 0xBF 0) =
     [(True, Switch_JoyL_Button1), (False, Switch_JoyL_Button2),
      (False, Switch_JoyL_Up), (False, Switch_JoyL_Down), (False, Switch_JoyL_Left),
      (False, Switch_JoyL_Right), (False, Switch_JoyL_UpLeft_Extra),
      (False, Switch_JoyL_UpRightDownLeft_Extra), (False, Switch_JoyL_DownRight_Extra)] \<and>
   \<not> opens_first (fst (process_Joystick_Left 0xBF 0))"
  by (simp add: process_Joystick_Left_def readJoystick_Left_def joyLeft_direction_def)

end
